theory Spec2Isabelle
  imports Main "HOL-Library.Word" "HOL-Library.Multiset" "HOL-Library.Product_Lexorder"
begin

section \<open>JavaScript strings\<close>

text \<open>
  A JavaScript string is a sequence of UTF-16 code units; \<open>length\<close> counts code units,
  as \<open>String.prototype.length\<close> and mongoose's \<open>minlength\<close> do. The literals of the
  source are ASCII and are written through \<open>js\<close>.
\<close>

type_synonym jsstring = "16 word list"

definition js :: "string \<Rightarrow> jsstring" where
  "js s = map (\<lambda>c. of_char c) s"

text \<open>
  The code units removed by \<open>String.prototype.trim\<close> and skipped by \<open>parseInt\<close>:
  ECMAScript's WhiteSpace (TAB, VT, FF, SP, NBSP, ZWNBSP and the category Zs) and
  LineTerminator (LF, CR, LS, PS).
\<close>

definition isWhiteSpace :: "16 word \<Rightarrow> bool" where
  "isWhiteSpace c \<longleftrightarrow>
     c = 0x09 \<or> c = 0x0A \<or> c = 0x0B \<or> c = 0x0C \<or> c = 0x0D \<or> c = 0x20 \<or> c = 0xA0 \<or>
     c = 0x1680 \<or> (0x2000 \<le> c \<and> c \<le> 0x200A) \<or> c = 0x2028 \<or> c = 0x2029 \<or>
     c = 0x202F \<or> c = 0x205F \<or> c = 0x3000 \<or> c = 0xFEFF"

definition trimStart :: "jsstring \<Rightarrow> jsstring" where
  "trimStart s = dropWhile isWhiteSpace s"

definition trimEnd :: "jsstring \<Rightarrow> jsstring" where
  "trimEnd s = rev (dropWhile isWhiteSpace (rev s))"

definition trim :: "jsstring \<Rightarrow> jsstring" where
  "trim s = trimEnd (trimStart s)"

subsection \<open>Strings in the store\<close>

text \<open>
  The driver writes a string into a document as UTF-8. A surrogate code unit that is not
  half of a pair has no UTF-8 form and is written as U+FFFD, so the string the store
  holds is \<open>toWellFormed\<close> of the string in memory; a string that \<open>isWellFormed\<close>
  is stored as it is.
\<close>

definition isHighSurrogate :: "16 word \<Rightarrow> bool" where
  "isHighSurrogate c \<longleftrightarrow> 0xD800 \<le> c \<and> c \<le> 0xDBFF"

definition isLowSurrogate :: "16 word \<Rightarrow> bool" where
  "isLowSurrogate c \<longleftrightarrow> 0xDC00 \<le> c \<and> c \<le> 0xDFFF"

fun toWellFormed :: "jsstring \<Rightarrow> jsstring" where
  "toWellFormed [] = []"
| "toWellFormed [c] = [if isHighSurrogate c \<or> isLowSurrogate c then 0xFFFD else c]"
| "toWellFormed (c # d # r) =
     (if isHighSurrogate c \<and> isLowSurrogate d then c # d # toWellFormed r
      else (if isHighSurrogate c \<or> isLowSurrogate c then 0xFFFD else c) # toWellFormed (d # r))"

fun isWellFormed :: "jsstring \<Rightarrow> bool" where
  "isWellFormed [] = True"
| "isWellFormed [c] = (\<not> (isHighSurrogate c \<or> isLowSurrogate c))"
| "isWellFormed (c # d # r) =
     (if isHighSurrogate c \<and> isLowSurrogate d then isWellFormed r
      else \<not> (isHighSurrogate c \<or> isLowSurrogate c) \<and> isWellFormed (d # r))"

subsection \<open>parseInt\<close>

text \<open>
  \<open>parseInt(string)\<close> with no radix: skip leading white space, read an optional sign,
  switch to radix 16 after a \<open>0x\<close>/\<open>0X\<close> prefix, then read the longest run of digits of
  the radix. No digit gives NaN, which is \<open>None\<close> here. The result is kept as the exact
  integer: the double that JavaScript rounds it to compares with 18 and with 65 the same
  way, and is that integer whenever it lies between them.
\<close>

definition digitValue :: "16 word \<Rightarrow> nat" where
  "digitValue c =
     (if 0x30 \<le> c \<and> c \<le> 0x39 then unat c - 0x30
      else if 0x61 \<le> c \<and> c \<le> 0x7A then unat c - 0x61 + 10
      else if 0x41 \<le> c \<and> c \<le> 0x5A then unat c - 0x41 + 10
      else 36)"

definition isRadixDigit :: "nat \<Rightarrow> 16 word \<Rightarrow> bool" where
  "isRadixDigit R c \<longleftrightarrow> digitValue c < R"

definition radixValue :: "nat \<Rightarrow> jsstring \<Rightarrow> nat" where
  "radixValue R Z = foldl (\<lambda>a c. a * R + digitValue c) 0 Z"

definition stripSign :: "jsstring \<Rightarrow> int \<times> jsstring" where
  "stripSign S =
     (case S of
        [] \<Rightarrow> (1, [])
      | c # r \<Rightarrow> if c = 0x2D then (-1, r) else if c = 0x2B then (1, r) else (1, S))"

definition stripPrefix :: "jsstring \<Rightarrow> nat \<times> jsstring" where
  "stripPrefix S =
     (case S of
        a # b # r \<Rightarrow> if a = 0x30 \<and> (b = 0x78 \<or> b = 0x58) then (16, r) else (10, S)
      | _ \<Rightarrow> (10, S))"

definition parseIntString :: "jsstring \<Rightarrow> int option" where
  "parseIntString inputString =
     (let (sign, S) = stripSign (trimStart inputString);
          (R, S') = stripPrefix S;
          Z = takeWhile (isRadixDigit R) S'
      in if Z = [] then None else Some (sign * int (radixValue R Z)))"

subsection \<open>Number to string\<close>

text \<open>
  The decimal text of an integer, as \<open>Number.prototype.toString\<close> and a template
  literal give it for an integral Number below \<open>10^21\<close>.
\<close>

definition digitChar :: "nat \<Rightarrow> 16 word" where
  "digitChar d = of_nat (0x30 + d)"

fun decimalNat :: "nat \<Rightarrow> jsstring" where
  "decimalNat n = (if n < 10 then [digitChar n] else decimalNat (n div 10) @ [digitChar (n mod 10)])"

declare decimalNat.simps [simp del]

definition decimal :: "int \<Rightarrow> jsstring" where
  "decimal i = (if i < 0 then 0x2D # decimalNat (nat (- i)) else decimalNat (nat i))"


section \<open>Values of a request\<close>

text \<open>
  What a field of \<open>req.body\<close> or \<open>req.query\<close> can hold after \<open>express.json\<close>,
  \<open>express.urlencoded\<close> and the query parser: nothing, \<open>null\<close>, a boolean, a number, a
  string, or an array or object. The handlers read a number only through its truth value
  and through \<open>parseInt\<close>, which converts its argument to a string first, so a number is
  carried as the text \<open>Number.prototype.toString\<close> gives for it (\<open>18.5\<close>, \<open>30\<close>,
  \<open>1e+21\<close>); an array or object likewise as its \<open>toString\<close> text.
\<close>

datatype jsval =
    JUndefined
  | JNull
  | JBool bool
  | JNum jsstring
  | JStr jsstring
  | JObj jsstring

fun truthy :: "jsval \<Rightarrow> bool" where
  "truthy JUndefined = False"
| "truthy JNull = False"
| "truthy (JBool b) = b"
| "truthy (JNum img) = (img \<noteq> js ''0'' \<and> img \<noteq> js ''NaN'')"
| "truthy (JStr s) = (s \<noteq> [])"
| "truthy (JObj img) = True"

fun ToString :: "jsval \<Rightarrow> jsstring" where
  "ToString JUndefined = js ''undefined''"
| "ToString JNull = js ''null''"
| "ToString (JBool b) = (if b then js ''true'' else js ''false'')"
| "ToString (JNum img) = img"
| "ToString (JStr s) = s"
| "ToString (JObj img) = img"

definition parseInt :: "jsval \<Rightarrow> int option" where
  "parseInt v = parseIntString (ToString v)"

text \<open>\<open>Array.prototype.includes\<close> on an array of strings: only an equal string is found.\<close>

fun array_includes :: "jsstring list \<Rightarrow> jsval \<Rightarrow> bool" where
  "array_includes xs (JStr s) = (s \<in> set xs)"
| "array_includes xs v = False"

fun join :: "jsstring \<Rightarrow> jsstring list \<Rightarrow> jsstring" where
  "join sep [] = []"
| "join sep [x] = x"
| "join sep (x # y # ys) = x @ sep @ join sep (y # ys)"

section \<open>Documents, collections and responses\<close>

text \<open>The destructured request body of \<open>POST /api/donate\<close>.\<close>

record submission =
  fullName :: jsval
  bloodGroup :: jsval
  age :: jsval
  year :: jsval

text \<open>A document of the Donor model; \<open>docId\<close> is its \<open>_id\<close>, time is in milliseconds.\<close>

record donor =
  docId :: nat
  fullName :: jsstring
  bloodGroup :: jsstring
  age :: int
  year :: jsstring
  donatedAt :: int

text \<open>
  A document of the Stats model (its \<open>_id\<close>, which no handler reads, is left out). Its
  one string is the constant \<open>global\<close> of the source.
\<close>

record stats =
  "identifier" :: jsstring
  totalBloodUnits :: int
  lastUpdated :: int

text \<open>The two collections, each in insertion order.\<close>

record db =
  Donor :: "donor list"
  Stats :: "stats list"

text \<open>
  What the environment decides at one storage call: whether the store answers, the clock
  (\<open>Date.now\<close>, \<open>new Date()\<close>), the ObjectId the driver generates for a new document,
  and the order the store gives to documents that a sort does not tell apart. That order
  is a rank for each position of the collection: \<open>ties\<close> lists the ranks of the first
  positions, a position beyond the list has itself as rank. The empty list is insertion
  order; every other order among such documents is some list.
\<close>

record io =
  up :: bool
  now :: int
  oid :: nat
  ties :: "nat list"

definition rankOf :: "io \<Rightarrow> nat \<Rightarrow> nat" where
  "rankOf io i = (if i < length (ties io) then ties io ! i else i)"

datatype error =
    ValidationError "jsstring list"
  | TypeError
  | MongoError
  | DuplicateKey

datatype json =
    VStr jsstring
  | VNum int
  | VBool bool
  | VDate int
  | VId nat
  | VObj "(string \<times> json) list"
  | VArr "json list"

record response =
  status :: nat
  body :: json

fun field :: "string \<Rightarrow> json \<Rightarrow> json option" where
  "field k (VObj kvs) = map_of kvs k"
| "field k v = None"

fun keys :: "json \<Rightarrow> string list" where
  "keys (VObj kvs) = map fst kvs"
| "keys v = []"


section \<open>The Donor model\<close>

definition validBloodGroups :: "jsstring list" where
  "validBloodGroups =
     [js ''A+'', js ''A-'', js ''B+'', js ''B-'', js ''AB+'', js ''AB-'', js ''O+'', js ''O-'']"

definition validYears :: "jsstring list" where
  "validYears = [js ''FY'', js ''SY'', js ''TY'', js ''Final Year'']"

text \<open>
  \<open>new Donor({...})\<close>: the schema's \<open>trim\<close> setter runs on \<open>fullName\<close>, \<open>donatedAt\<close>
  takes its default \<open>Date.now\<close>, and the driver supplies the \<open>_id\<close>.
\<close>

definition newDonor :: "jsstring \<Rightarrow> jsstring \<Rightarrow> int \<Rightarrow> jsstring \<Rightarrow> io \<Rightarrow> donor" where
  "newDonor name bg ageNum yr io =
     \<lparr>docId = oid io, fullName = trim name, bloodGroup = bg, age = ageNum, year = yr,
      donatedAt = now io\<rparr>"

text \<open>
  The validators of \<open>donorSchema\<close>, path by path in schema order; on each path the first
  failing validator (\<open>required\<close> first) gives the message.
\<close>

definition validate_fullName :: "donor \<Rightarrow> jsstring list" where
  "validate_fullName d =
     (if fullName d = [] then [js ''Full name is required'']
      else if length (fullName d) < 2 then [js ''Name must be at least 2 characters long'']
      else [])"

definition validate_bloodGroup :: "donor \<Rightarrow> jsstring list" where
  "validate_bloodGroup d =
     (if bloodGroup d = [] then [js ''Blood group is required'']
      else if bloodGroup d \<notin> set validBloodGroups then [js ''Invalid blood group'']
      else [])"

definition validate_age :: "donor \<Rightarrow> jsstring list" where
  "validate_age d =
     (if age d < 18 then [js ''Donor must be at least 18 years old'']
      else if 65 < age d then [js ''Donor must be 65 years or younger'']
      else [])"

definition validate_year :: "donor \<Rightarrow> jsstring list" where
  "validate_year d =
     (if year d = [] then [js ''Year is required'']
      else if year d \<notin> set validYears then [js ''Invalid year selection'']
      else [])"

definition validateDonor :: "donor \<Rightarrow> jsstring list" where
  "validateDonor d = validate_fullName d @ validate_bloodGroup d @ validate_age d @ validate_year d"

text \<open>
  The document as the driver writes it: its strings in UTF-8. The document in memory,
  which the handler goes on to read, keeps its strings.
\<close>

definition toBSON :: "donor \<Rightarrow> donor" where
  "toBSON d =
     d\<lparr>fullName := toWellFormed (fullName d), bloodGroup := toWellFormed (bloodGroup d),
       year := toWellFormed (year d)\<rparr>"

text \<open>
  \<open>donor.save()\<close>: validation runs on the document in memory before the store is
  touched and raises \<open>ValidationError\<close>; an unreachable store raises without inserting.
\<close>

definition save :: "donor \<Rightarrow> io \<Rightarrow> db \<Rightarrow> error + db" where
  "save d io s =
     (case validateDonor d of
        m # ms \<Rightarrow> Inl (ValidationError (m # ms))
      | [] \<Rightarrow> if up io then Inr (s\<lparr>Donor := Donor s @ [toBSON d]\<rparr>) else Inl MongoError)"

definition countDocuments :: "io \<Rightarrow> db \<Rightarrow> error + int" where
  "countDocuments io s = (if up io then Inr (int (length (Donor s))) else Inl MongoError)"

text \<open>
  \<open>Donor.find().select(...).sort({donatedAt: -1}).limit(n)\<close>. The sort names
  \<open>donatedAt\<close> and nothing else, and the store promises no order among documents of
  equal \<open>donatedAt\<close>: they come in the order of the ranks that the environment gives
  at this call. A negative limit counts as its absolute value. An inclusive projection
  keeps \<open>_id\<close> beside the paths it names
  (the version key \<open>__v\<close>, which the projection drops with \<open>age\<close> and \<open>year\<close>, is
  not listed among the fields).
\<close>

definition toObject :: "donor \<Rightarrow> (string \<times> json) list" where
  "toObject d =
     [(''_id'', VId (docId d)), (''fullName'', VStr (fullName d)),
      (''bloodGroup'', VStr (bloodGroup d)), (''age'', VNum (age d)),
      (''year'', VStr (year d)), (''donatedAt'', VDate (donatedAt d))]"

definition select :: "string list \<Rightarrow> (string \<times> json) list \<Rightarrow> json" where
  "select paths kvs = VObj (filter (\<lambda>kv. fst kv = ''_id'' \<or> fst kv \<in> set paths) kvs)"

definition sortRecent :: "io \<Rightarrow> donor list \<Rightarrow> donor list" where
  "sortRecent io ds =
     map snd (sort_key (\<lambda>p. (- donatedAt (snd p), rankOf io (fst p))) (enumerate 0 ds))"

definition limit :: "int \<Rightarrow> 'a list \<Rightarrow> 'a list" where
  "limit n xs = take (nat \<bar>n\<bar>) xs"

definition findRecent :: "int \<Rightarrow> io \<Rightarrow> db \<Rightarrow> error + json list" where
  "findRecent n io s =
     (if up io
      then Inr (map (\<lambda>d. select [''fullName'', ''bloodGroup'', ''donatedAt''] (toObject d))
                  (limit n (sortRecent io (Donor s))))
      else Inl MongoError)"

section \<open>The Stats model\<close>

definition global :: jsstring where
  "global = js ''global''"

definition findOne :: "jsstring \<Rightarrow> io \<Rightarrow> db \<Rightarrow> error + stats option" where
  "findOne ident io s =
     (if up io then Inr (find (\<lambda>d. identifier d = ident) (Stats s)) else Inl MongoError)"

text \<open>
  \<open>Stats.create\<close>: the unique index on \<open>identifier\<close> refuses a second document with the
  same key (duplicate key error).
\<close>

definition create :: "stats \<Rightarrow> io \<Rightarrow> db \<Rightarrow> error + stats \<times> db" where
  "create d io s =
     (if \<not> up io then Inl MongoError
      else if identifier d \<in> set (map identifier (Stats s)) then Inl DuplicateKey
      else Inr (d, s\<lparr>Stats := Stats s @ [d]\<rparr>))"

fun updateFirst :: "('a \<Rightarrow> bool) \<Rightarrow> ('a \<Rightarrow> 'a) \<Rightarrow> 'a list \<Rightarrow> 'a list" where
  "updateFirst P f [] = []"
| "updateFirst P f (x # xs) = (if P x then f x # xs else x # updateFirst P f xs)"

text \<open>
  \<open>findOneAndUpdate({identifier: ident}, update, {upsert: true})\<close>: one atomic
  operation of the store. It updates the first matching document, or inserts one that
  takes \<open>identifier\<close> from the filter and the update on top of an empty counter. The
  document returned is the updated one (\<open>new: true\<close>); \<open>/api/sync-stats\<close>, which
  does not ask for it, does not read the result.
\<close>

definition findOneAndUpdate ::
    "jsstring \<Rightarrow> (stats \<Rightarrow> stats) \<Rightarrow> io \<Rightarrow> db \<Rightarrow> error + stats \<times> db" where
  "findOneAndUpdate ident update io s =
     (if \<not> up io then Inl MongoError
      else case find (\<lambda>d. identifier d = ident) (Stats s) of
        Some d \<Rightarrow>
          Inr (update d, s\<lparr>Stats := updateFirst (\<lambda>d. identifier d = ident) update (Stats s)\<rparr>)
      | None \<Rightarrow>
          (let d = update \<lparr>identifier = ident, totalBloodUnits = 0, lastUpdated = now io\<rparr>
           in Inr (d, s\<lparr>Stats := Stats s @ [d]\<rparr>)))"

text \<open>\<open>statsSchema.statics.getStats\<close>: two storage calls, \<open>findOne\<close> and then \<open>create\<close>.\<close>

definition getStats :: "io \<Rightarrow> io \<Rightarrow> db \<Rightarrow> error + stats \<times> db" where
  "getStats io1 io2 s =
     (case findOne global io1 s of
        Inl e \<Rightarrow> Inl e
      | Inr (Some d) \<Rightarrow> Inr (d, s)
      | Inr None \<Rightarrow>
          create \<lparr>identifier = global, totalBloodUnits = 0, lastUpdated = now io2\<rparr> io2 s)"

text \<open>\<open>statsSchema.statics.incrementCount\<close>: a single \<open>findOneAndUpdate\<close> with \<open>$inc\<close>.\<close>

definition incrementCount :: "int \<Rightarrow> io \<Rightarrow> db \<Rightarrow> error + stats \<times> db" where
  "incrementCount amount io s =
     findOneAndUpdate global
       (\<lambda>d. d\<lparr>totalBloodUnits := totalBloodUnits d + amount, lastUpdated := now io\<rparr>) io s"


section \<open>The API routes\<close>

text \<open>
  Each handler is split at its \<open>await\<close>s: one function per storage call, given that
  call's \<open>io\<close>. A handler run on its own is the composition of its parts; concurrent
  requests interleave at exactly these points.
\<close>

definition failure :: "nat \<Rightarrow> string \<Rightarrow> response" where
  "failure code msg =
     \<lparr>status = code, body = VObj [(''success'', VBool False), (''message'', VStr (js msg))]\<rparr>"

subsection \<open>POST /api/donate\<close>

text \<open>The \<open>catch\<close> block of the handler.\<close>

fun donate_catch :: "error \<Rightarrow> response" where
  "donate_catch (ValidationError messages) =
     \<lparr>status = 400,
      body = VObj [(''success'', VBool False), (''message'', VStr (join (js '', '') messages))]\<rparr>"
| "donate_catch e = failure 500 ''Server error. Please try again later.''"

text \<open>
  From the start of the handler to \<open>await donor.save()\<close>. \<open>Inl\<close> is the response of a
  request that ends here, \<open>Inr\<close> the document in memory of one that goes on. \<open>fullName.trim()\<close>
  raises \<open>TypeError\<close> on anything but a string; \<open>bloodGroup\<close> and \<open>year\<close> have passed
  \<open>includes\<close> when the document is built, so they are strings and the schema's cast
  leaves them as they are.
\<close>

definition donate_save :: "submission \<Rightarrow> io \<Rightarrow> db \<Rightarrow> (response + donor) \<times> db" where
  "donate_save b io s =
     (if \<not> truthy (submission.fullName b) \<or> \<not> truthy (submission.bloodGroup b) \<or>
         \<not> truthy (submission.age b) \<or> \<not> truthy (submission.year b)
      then (Inl (failure 400 ''All fields are required''), s)
      else case parseInt (submission.age b) of
        None \<Rightarrow> (Inl (failure 400 ''Donor must be at least 18 years old''), s)
      | Some ageNum \<Rightarrow>
          if ageNum < 18 then (Inl (failure 400 ''Donor must be at least 18 years old''), s)
          else if \<not> array_includes validBloodGroups (submission.bloodGroup b)
          then (Inl (failure 400 ''Invalid blood group''), s)
          else if \<not> array_includes validYears (submission.year b)
          then (Inl (failure 400 ''Invalid year selection''), s)
          else (case submission.fullName b of
            JStr name \<Rightarrow>
              (let d = newDonor (trim name) (ToString (submission.bloodGroup b)) ageNum
                         (ToString (submission.year b)) io
               in case save d io s of
                    Inl e \<Rightarrow> (Inl (donate_catch e), s)
                  | Inr s' \<Rightarrow> (Inr d, s'))
          | _ \<Rightarrow> (Inl (donate_catch TypeError), s)))"

text \<open>From \<open>await Stats.incrementCount(1)\<close> to the response.\<close>

definition donate_increment :: "donor \<Rightarrow> io \<Rightarrow> db \<Rightarrow> response \<times> db" where
  "donate_increment d io s =
     (case incrementCount 1 io s of
        Inl e \<Rightarrow> (donate_catch e, s)
      | Inr (st, s') \<Rightarrow>
          (\<lparr>status = 201,
            body = VObj
              [(''success'', VBool True),
               (''message'', VStr (js ''Donation registered successfully'')),
               (''data'', VObj
                  [(''donor'', VObj [(''fullName'', VStr (fullName d)),
                                     (''bloodGroup'', VStr (bloodGroup d))]),
                   (''totalUnits'', VNum (totalBloodUnits st))])]\<rparr>, s'))"

definition post_donate :: "submission \<Rightarrow> io \<Rightarrow> io \<Rightarrow> db \<Rightarrow> response \<times> db" where
  "post_donate b io1 io2 s =
     (case donate_save b io1 s of
        (Inl r, s') \<Rightarrow> (r, s')
      | (Inr d, s') \<Rightarrow> donate_increment d io2 s')"

subsection \<open>GET /api/stats\<close>

definition stats_response :: "stats \<Rightarrow> response" where
  "stats_response st =
     \<lparr>status = 200,
      body = VObj
        [(''success'', VBool True),
         (''data'', VObj [(''totalBloodUnits'', VNum (totalBloodUnits st)),
                          (''lastUpdated'', VDate (lastUpdated st))])]\<rparr>"

text \<open>\<open>Inr ()\<close>: \<open>findOne\<close> found nothing and \<open>getStats\<close> goes on to \<open>create\<close>.\<close>

definition stats_find :: "io \<Rightarrow> db \<Rightarrow> (response + unit) \<times> db" where
  "stats_find io s =
     (case findOne global io s of
        Inl e \<Rightarrow> (Inl (failure 500 ''Error fetching statistics''), s)
      | Inr (Some st) \<Rightarrow> (Inl (stats_response st), s)
      | Inr None \<Rightarrow> (Inr (), s))"

definition stats_create :: "io \<Rightarrow> db \<Rightarrow> response \<times> db" where
  "stats_create io s =
     (case create \<lparr>identifier = global, totalBloodUnits = 0, lastUpdated = now io\<rparr> io s of
        Inl e \<Rightarrow> (failure 500 ''Error fetching statistics'', s)
      | Inr (st, s') \<Rightarrow> (stats_response st, s'))"

definition get_stats :: "io \<Rightarrow> io \<Rightarrow> db \<Rightarrow> response \<times> db" where
  "get_stats io1 io2 s =
     (case getStats io1 io2 s of
        Inl e \<Rightarrow> (failure 500 ''Error fetching statistics'', s)
      | Inr (st, s') \<Rightarrow> (stats_response st, s'))"

subsection \<open>POST /api/sync-stats\<close>

definition sync_count :: "io \<Rightarrow> db \<Rightarrow> (response + int) \<times> db" where
  "sync_count io s =
     (case countDocuments io s of
        Inl e \<Rightarrow> (Inl (failure 500 ''Error syncing statistics''), s)
      | Inr donorCount \<Rightarrow> (Inr donorCount, s))"

definition sync_update :: "int \<Rightarrow> io \<Rightarrow> db \<Rightarrow> response \<times> db" where
  "sync_update donorCount io s =
     (case findOneAndUpdate global
             (\<lambda>d. d\<lparr>totalBloodUnits := donorCount, lastUpdated := now io\<rparr>) io s of
        Inl e \<Rightarrow> (failure 500 ''Error syncing statistics'', s)
      | Inr (st, s') \<Rightarrow>
          (\<lparr>status = 200,
            body = VObj
              [(''success'', VBool True),
               (''message'', VStr (js ''Stats synced. Total donors: '' @ decimal donorCount)),
               (''data'', VObj [(''totalBloodUnits'', VNum donorCount)])]\<rparr>, s'))"

definition sync_stats :: "io \<Rightarrow> io \<Rightarrow> db \<Rightarrow> response \<times> db" where
  "sync_stats io1 io2 s =
     (case sync_count io1 s of
        (Inl r, s') \<Rightarrow> (r, s')
      | (Inr donorCount, s') \<Rightarrow> sync_update donorCount io2 s')"

subsection \<open>GET /api/donors\<close>

text \<open>\<open>parseInt(req.query.limit) || 10\<close>: NaN and 0 are falsy.\<close>

definition query_limit :: "jsval \<Rightarrow> int" where
  "query_limit q = (case parseInt q of None \<Rightarrow> 10 | Some n \<Rightarrow> if n = 0 then 10 else n)"

definition get_donors :: "jsval \<Rightarrow> io \<Rightarrow> db \<Rightarrow> response \<times> db" where
  "get_donors q io s =
     (case findRecent (query_limit q) io s of
        Inl e \<Rightarrow> (failure 500 ''Error fetching donors'', s)
      | Inr donors \<Rightarrow>
          (\<lparr>status = 200,
            body = VObj [(''success'', VBool True), (''data'', VArr donors)]\<rparr>, s))"

section \<open>Concurrent requests\<close>

text \<open>
  The server runs every request as its own asynchronous call; a request gives way to the
  others only while it awaits the store. A task is a request together with the point it
  has reached, a schedule names, call by call of the store, the task that runs next and
  what the environment does at that call.
\<close>

datatype request = Donate submission | GetStats | SyncStats | GetDonors jsval

datatype task =
    Start request
  | AwaitIncrement donor
  | AwaitCreate
  | AwaitUpdate int
  | Finished response

fun step :: "io \<Rightarrow> task \<Rightarrow> db \<Rightarrow> task \<times> db" where
  "step io (Start (Donate b)) s =
     (case donate_save b io s of
        (Inl r, s') \<Rightarrow> (Finished r, s')
      | (Inr d, s') \<Rightarrow> (AwaitIncrement d, s'))"
| "step io (AwaitIncrement d) s =
     (case donate_increment d io s of (r, s') \<Rightarrow> (Finished r, s'))"
| "step io (Start GetStats) s =
     (case stats_find io s of
        (Inl r, s') \<Rightarrow> (Finished r, s')
      | (Inr u, s') \<Rightarrow> (AwaitCreate, s'))"
| "step io AwaitCreate s =
     (case stats_create io s of (r, s') \<Rightarrow> (Finished r, s'))"
| "step io (Start SyncStats) s =
     (case sync_count io s of
        (Inl r, s') \<Rightarrow> (Finished r, s')
      | (Inr donorCount, s') \<Rightarrow> (AwaitUpdate donorCount, s'))"
| "step io (AwaitUpdate donorCount) s =
     (case sync_update donorCount io s of (r, s') \<Rightarrow> (Finished r, s'))"
| "step io (Start (GetDonors q)) s =
     (case get_donors q io s of (r, s') \<Rightarrow> (Finished r, s'))"
| "step io (Finished r) s = (Finished r, s)"

fun run :: "(nat \<times> io) list \<Rightarrow> task list \<times> db \<Rightarrow> task list \<times> db" where
  "run [] c = c"
| "run ((i, io) # sch) (ts, s) =
     (if i < length ts
      then (case step io (ts ! i) s of (t', s') \<Rightarrow> run sch (ts[i := t'], s'))
      else run sch (ts, s))"

fun finished :: "task \<Rightarrow> bool" where
  "finished (Finished r) = True"
| "finished t = False"

text \<open>The counter as \<open>GET /api/stats\<close> reports it: 0 while the singleton is absent.\<close>

definition totalUnits :: "db \<Rightarrow> int" where
  "totalUnits s =
     (case find (\<lambda>d. identifier d = global) (Stats s) of
        None \<Rightarrow> 0
      | Some d \<Rightarrow> totalBloodUnits d)"

definition singletons :: "db \<Rightarrow> stats list" where
  "singletons s = filter (\<lambda>d. identifier d = global) (Stats s)"


text \<open>The code units \<open>0\<close> to \<open>9\<close>.\<close>

definition isDecimalDigit :: "16 word \<Rightarrow> bool" where
  "isDecimalDigit c \<longleftrightarrow> 0x30 \<le> c \<and> c \<le> 0x39"

section \<open>Notions of the specification\<close>

text \<open>
  A valid submission, in the words of the specification's data model: \<open>fullName\<close> a
  string of at least 2 characters after trimming, \<open>bloodGroup\<close> and \<open>year\<close> in their
  closed sets, \<open>age\<close> an integer number between 18 and 65.
\<close>

definition validSubmission :: "submission \<Rightarrow> bool" where
  "validSubmission b \<longleftrightarrow>
     (case submission.fullName b of JStr name \<Rightarrow> 2 \<le> length (trim name) | _ \<Rightarrow> False) \<and>
     array_includes validBloodGroups (submission.bloodGroup b) \<and>
     (case submission.age b of JNum img \<Rightarrow> (\<exists>n \<in> {18..65}. img = decimal n) | _ \<Rightarrow> False) \<and>
     array_includes validYears (submission.year b)"



text \<open>A string with no white space at either end.\<close>

definition noSurroundingSpace :: "jsstring \<Rightarrow> bool" where
  "noSurroundingSpace n \<longleftrightarrow> n = [] \<or> (\<not> isWhiteSpace (hd n) \<and> \<not> isWhiteSpace (last n))"

text \<open>What a task still owes the store: a donor to save, an increment to make.\<close>

fun savesDue :: "task \<Rightarrow> nat" where
  "savesDue (Start (Donate b)) = 1"
| "savesDue t = 0"

fun incrementsDue :: "task \<Rightarrow> int" where
  "incrementsDue (Start (Donate b)) = 1"
| "incrementsDue (AwaitIncrement d) = 1"
| "incrementsDue t = 0"

text \<open>
  The stages of a registration that goes well: a valid submission not yet saved, a saved
  donor awaiting the increment, the response 201.
\<close>

fun registration :: "task \<Rightarrow> bool" where
  "registration (Start (Donate b)) = validSubmission b"
| "registration (AwaitIncrement d) = True"
| "registration (Finished r) = (status r = 201)"
| "registration t = False"

text \<open>How far a task has come: not started, between its two storage calls, finished.\<close>

fun stage :: "task \<Rightarrow> nat" where
  "stage (Start q) = 0"
| "stage (Finished r) = 2"
| "stage t = 1"

section \<open>Unfolding the model on concrete inputs\<close>

lemmas string_eval =
  js_def trim_def trimStart_def trimEnd_def isWhiteSpace_def parseInt_def parseIntString_def
  stripSign_def stripPrefix_def isRadixDigit_def digitValue_def radixValue_def

lemmas donor_eval =
  validBloodGroups_def validYears_def newDonor_def validateDonor_def validate_fullName_def
  validate_bloodGroup_def validate_age_def validate_year_def save_def toBSON_def
  isHighSurrogate_def isLowSurrogate_def

lemmas stats_eval =
  global_def findOne_def create_def findOneAndUpdate_def getStats_def incrementCount_def
  totalUnits_def singletons_def

lemmas route_eval =
  failure_def donate_save_def donate_increment_def post_donate_def stats_response_def
  stats_find_def stats_create_def get_stats_def sync_count_def sync_update_def sync_stats_def
  countDocuments_def query_limit_def get_donors_def findRecent_def limit_def sortRecent_def
  rankOf_def
  select_def toObject_def Let_def

section \<open>Auxiliary facts about lists\<close>

lemma find_None_filter: "find P xs = None \<longleftrightarrow> filter P xs = []"
  by (induction xs) auto

lemma find_append_js:
  "find P (xs @ ys) = (case find P xs of None \<Rightarrow> find P ys | Some x \<Rightarrow> Some x)"
  by (induction xs) auto

lemma find_singletons_None:
  "singletons s = [] \<Longrightarrow> find (\<lambda>d. identifier d = global) (Stats s) = None"
  by (simp add: singletons_def find_None_filter)

lemma find_updateFirst:
  "find P xs = Some d \<Longrightarrow> P (f d) \<Longrightarrow> find P (updateFirst P f xs) = Some (f d)"
  by (induction xs) (auto split: if_splits)

lemma find_Some_holds: "find P xs = Some d \<Longrightarrow> P d"
  by (induction xs) (auto split: if_splits)

lemma findOneAndUpdate_sets:
  assumes "up io" and "\<And>d. identifier (f d) = identifier d"
  shows "\<exists>st s'. findOneAndUpdate global f io s = Inr (st, s') \<and> Donor s' = Donor s \<and>
           find (\<lambda>d. identifier d = global) (Stats s') = Some st \<and>
           st = f (case find (\<lambda>d. identifier d = global) (Stats s) of
                     Some d \<Rightarrow> d
                   | None \<Rightarrow> \<lparr>identifier = global, totalBloodUnits = 0, lastUpdated = now io\<rparr>)"
proof (cases "find (\<lambda>d. identifier d = global) (Stats s)")
  case None
  then show ?thesis
    using assms by (simp add: findOneAndUpdate_def Let_def find_append_js)
next
  case (Some d)
  then have "identifier (f d) = global"
    using assms(2) find_Some_holds [OF Some] by simp
  then show ?thesis
    using assms(1) Some by (simp add: findOneAndUpdate_def find_updateFirst)
qed

lemma find_None_fresh: "find (\<lambda>d. identifier d = k) xs = None \<Longrightarrow> k \<notin> set (map identifier xs)"
  by (induction xs) (auto split: if_splits)

section \<open>Auxiliary facts about strings\<close>

lemma unat_digitChar: "d < 10 \<Longrightarrow> unat (digitChar d) = 0x30 + d"
  unfolding digitChar_def unat_of_nat by simp

lemma isDecimalDigit_digitChar: "d < 10 \<Longrightarrow> isDecimalDigit (digitChar d)"
  by (simp add: isDecimalDigit_def word_le_nat_alt unat_digitChar)

lemma digitValue_digitChar: "d < 10 \<Longrightarrow> digitValue (digitChar d) = d"
  by (simp add: digitValue_def word_le_nat_alt unat_digitChar)

lemma isDecimalDigit_value: "isDecimalDigit c \<Longrightarrow> digitValue c < 10"
  by (auto simp: isDecimalDigit_def digitValue_def word_le_nat_alt)

lemma isDecimalDigit_not_space: "isDecimalDigit c \<Longrightarrow> \<not> isWhiteSpace c"
  by (auto simp: isDecimalDigit_def isWhiteSpace_def word_le_nat_alt)

lemma isDecimalDigit_plain:
  "isDecimalDigit c \<Longrightarrow> c \<noteq> 0x2D \<and> c \<noteq> 0x2B \<and> c \<noteq> 0x78 \<and> c \<noteq> 0x58"
  by (auto simp: isDecimalDigit_def)

lemma decimalNat_digits: "c \<in> set (decimalNat n) \<Longrightarrow> isDecimalDigit c"
proof (induction n arbitrary: c rule: decimalNat.induct)
  case (1 n)
  show ?case
  proof (cases "n < 10")
    case True
    with "1.prems" show ?thesis
      by (simp add: decimalNat.simps [of n] isDecimalDigit_digitChar)
  next
    case False
    with "1.prems" have "c \<in> set (decimalNat (n div 10)) \<or> c = digitChar (n mod 10)"
      by (auto simp: decimalNat.simps [of n])
    then show ?thesis
      using "1.IH" [OF False] by (auto simp: isDecimalDigit_digitChar)
  qed
qed

lemma decimalNat_not_Nil: "decimalNat n \<noteq> []"
  by (simp add: decimalNat.simps [of n])

lemma radixValue_snoc: "radixValue R (Z @ [c]) = radixValue R Z * R + digitValue c"
  by (simp add: radixValue_def)

lemma radixValue_decimalNat: "radixValue 10 (decimalNat n) = n"
proof (induction n rule: decimalNat.induct)
  case (1 n)
  show ?case
  proof (cases "n < 10")
    case True
    then show ?thesis
      by (simp add: decimalNat.simps [of n] radixValue_def digitValue_digitChar)
  next
    case False
    then show ?thesis
      using "1.IH" [OF False]
      by (simp add: decimalNat.simps [of n] radixValue_snoc digitValue_digitChar)
  qed
qed

lemma parseIntString_digits:
  assumes "Z \<noteq> []" and "\<And>c. c \<in> set Z \<Longrightarrow> isDecimalDigit c"
  shows "stripPrefix Z = (10, Z)" and "takeWhile (isRadixDigit 10) Z = Z"
proof -
  show "stripPrefix Z = (10, Z)"
  proof (cases Z)
    case Nil
    then show ?thesis by (simp add: stripPrefix_def)
  next
    case (Cons a r)
    show ?thesis
    proof (cases r)
      case Nil
      with Cons show ?thesis by (simp add: stripPrefix_def)
    next
      case (Cons b r')
      with \<open>Z = a # r\<close> have "isDecimalDigit b"
        using assms(2) by simp
      then show ?thesis
        using Cons \<open>Z = a # r\<close> isDecimalDigit_plain [of b] by (simp add: stripPrefix_def)
    qed
  qed
  show "takeWhile (isRadixDigit 10) Z = Z"
    using assms(2) by (simp add: isRadixDigit_def isDecimalDigit_value)
qed

lemma parseIntString_decimalNat: "parseIntString (decimalNat n) = Some (int n)"
proof -
  let ?Z = "decimalNat n"
  obtain c r where Z: "?Z = c # r"
    using decimalNat_not_Nil [of n] by (cases ?Z) auto
  have dig: "\<And>x. x \<in> set ?Z \<Longrightarrow> isDecimalDigit x"
    by (rule decimalNat_digits)
  have c: "isDecimalDigit c"
    using dig [of c] Z by simp
  have ts: "trimStart ?Z = ?Z"
    using c isDecimalDigit_not_space [of c] by (simp add: trimStart_def Z)
  have sg: "stripSign ?Z = (1, ?Z)"
    using isDecimalDigit_plain [OF c] by (simp add: stripSign_def Z)
  have sp: "stripPrefix ?Z = (10, ?Z)"
    using decimalNat_not_Nil dig by (rule parseIntString_digits(1))
  have tw: "takeWhile (isRadixDigit 10) ?Z = ?Z"
    using decimalNat_not_Nil dig by (rule parseIntString_digits(2))
  show ?thesis
    by (simp add: parseIntString_def ts sg sp tw decimalNat_not_Nil radixValue_decimalNat)
qed

lemma parseIntString_decimal: "parseIntString (decimal i) = Some i"
proof (cases "i < 0")
  case False
  then show ?thesis
    by (simp add: decimal_def parseIntString_decimalNat)
next
  case True
  let ?Z = "decimalNat (nat (- i))"
  have dig: "\<And>x. x \<in> set ?Z \<Longrightarrow> isDecimalDigit x"
    by (rule decimalNat_digits)
  have ts: "trimStart (0x2D # ?Z) = 0x2D # ?Z"
    by (simp add: trimStart_def isWhiteSpace_def)
  have sg: "stripSign (0x2D # ?Z) = (-1, ?Z)"
    by (simp add: stripSign_def)
  have sp: "stripPrefix ?Z = (10, ?Z)"
    using decimalNat_not_Nil dig by (rule parseIntString_digits(1))
  have tw: "takeWhile (isRadixDigit 10) ?Z = ?Z"
    using decimalNat_not_Nil dig by (rule parseIntString_digits(2))
  have "parseIntString (0x2D # ?Z) = Some (- int (nat (- i)))"
    by (simp add: parseIntString_def ts sg sp tw decimalNat_not_Nil radixValue_decimalNat)
  then show ?thesis
    using True by (simp add: decimal_def)
qed

lemma parseInt_decimal: "parseInt (JNum (decimal i)) = Some i"
  by (simp add: parseInt_def parseIntString_decimal)

lemma trimStart_hd: "trimStart s \<noteq> [] \<Longrightarrow> \<not> isWhiteSpace (hd (trimStart s))"
  unfolding trimStart_def by (rule hd_dropWhile)

lemma last_dropWhile: "dropWhile P xs \<noteq> [] \<Longrightarrow> last (dropWhile P xs) = last xs"
  by (induction xs) (auto split: if_splits)

lemma trim_ends:
  assumes "trim s \<noteq> []"
  shows "\<not> isWhiteSpace (hd (trim s))" and "\<not> isWhiteSpace (last (trim s))"
proof -
  let ?t = "trimStart s"
  let ?r = "dropWhile isWhiteSpace (rev ?t)"
  have r: "?r \<noteq> []"
    using assms by (simp add: trim_def trimEnd_def)
  then have t: "?t \<noteq> []"
    by auto
  have "hd (trim s) = last ?r"
    using r by (simp add: trim_def trimEnd_def hd_rev)
  also have "\<dots> = last (rev ?t)"
    using r by (rule last_dropWhile)
  also have "\<dots> = hd ?t"
    using t by (simp add: last_rev)
  finally show "\<not> isWhiteSpace (hd (trim s))"
    using trimStart_hd [OF t] by simp
  have "last (trim s) = hd ?r"
    using r by (simp add: trim_def trimEnd_def last_rev)
  then show "\<not> isWhiteSpace (last (trim s))"
    using hd_dropWhile [OF r] by simp
qed

lemma trim_fixed:
  assumes "s = [] \<or> (\<not> isWhiteSpace (hd s) \<and> \<not> isWhiteSpace (last s))"
  shows "trim s = s"
proof (cases s)
  case Nil
  then show ?thesis by (simp add: trim_def trimStart_def trimEnd_def)
next
  case (Cons c r)
  with assms have hd: "\<not> isWhiteSpace c" and lst: "\<not> isWhiteSpace (last s)"
    by simp_all
  have "trimStart s = s"
    using hd by (simp add: trimStart_def Cons)
  moreover have "dropWhile isWhiteSpace (rev s) = rev s"
    using lst Cons by (cases "rev s") (auto simp: hd_rev [symmetric] dest: arg_cong [where f = hd])
  ultimately show ?thesis
    by (simp add: trim_def trimEnd_def)
qed

lemma trim_trim: "trim (trim s) = trim s"
  using trim_ends [of s] by (intro trim_fixed) blast

lemma toWellFormed_Nil_iff: "toWellFormed s = [] \<longleftrightarrow> s = []"
  by (induction s rule: toWellFormed.induct) auto

lemma length_toWellFormed: "length (toWellFormed s) = length s"
  by (induction s rule: toWellFormed.induct) auto

lemma toWellFormed_hd: "s \<noteq> [] \<Longrightarrow> hd (toWellFormed s) = hd s \<or> hd (toWellFormed s) = 0xFFFD"
  by (induction s rule: toWellFormed.induct) auto

lemma toWellFormed_last:
  "s \<noteq> [] \<Longrightarrow> last (toWellFormed s) = last s \<or> last (toWellFormed s) = 0xFFFD"
  by (induction s rule: toWellFormed.induct) (auto simp: toWellFormed_Nil_iff)

lemma replacement_not_space: "\<not> isWhiteSpace 0xFFFD"
  by (simp add: isWhiteSpace_def)

lemma noSurroundingSpace_toWellFormed:
  assumes "noSurroundingSpace s"
  shows "noSurroundingSpace (toWellFormed s)"
proof (cases "s = []")
  case True
  then show ?thesis by (simp add: noSurroundingSpace_def)
next
  case False
  with assms have "\<not> isWhiteSpace (hd s)" and "\<not> isWhiteSpace (last s)"
    by (simp_all add: noSurroundingSpace_def)
  then show ?thesis
    using toWellFormed_hd [OF False] toWellFormed_last [OF False] replacement_not_space
    by (auto simp: noSurroundingSpace_def)
qed

lemma toWellFormed_fixed: "isWellFormed s \<Longrightarrow> toWellFormed s = s"
  by (induction s rule: toWellFormed.induct) (auto split: if_splits)

lemma validBloodGroups_stored: "bg \<in> set validBloodGroups \<Longrightarrow> toWellFormed bg = bg"
  by (auto simp: validBloodGroups_def js_def isHighSurrogate_def isLowSurrogate_def)

lemma validYears_stored: "yr \<in> set validYears \<Longrightarrow> toWellFormed yr = yr"
  by (auto simp: validYears_def js_def isHighSurrogate_def isLowSurrogate_def)

section \<open>Auxiliary facts about the registration\<close>

lemma decimal_truthy: "i \<noteq> 0 \<Longrightarrow> decimal i \<noteq> js ''0'' \<and> decimal i \<noteq> js ''NaN''"
proof -
  assume "i \<noteq> 0"
  have "parseIntString (js ''0'') = Some 0"
    by (simp add: js_def parseIntString_def trimStart_def stripSign_def stripPrefix_def
        isRadixDigit_def digitValue_def radixValue_def isWhiteSpace_def)
  moreover have "parseIntString (js ''NaN'') = None"
    by (simp add: js_def parseIntString_def trimStart_def stripSign_def stripPrefix_def
        isRadixDigit_def digitValue_def radixValue_def isWhiteSpace_def)
  ultimately have "decimal i \<noteq> js ''0''" and "decimal i \<noteq> js ''NaN''"
    using parseIntString_decimal [of i] \<open>i \<noteq> 0\<close> by auto
  then show ?thesis by simp
qed

lemma trim_Nil: "trim [] = []"
  by (simp add: trim_def trimStart_def trimEnd_def)

lemma validBloodGroups_not_Nil: "bg \<in> set validBloodGroups \<Longrightarrow> bg \<noteq> []"
  by (auto simp: validBloodGroups_def js_def)

lemma validYears_not_Nil: "yr \<in> set validYears \<Longrightarrow> yr \<noteq> []"
  by (auto simp: validYears_def js_def)

lemma array_includes_JStr: "array_includes xs v \<Longrightarrow> \<exists>x. v = JStr x \<and> x \<in> set xs"
  by (cases v) auto

text \<open>A valid submission passes the checks of the handler and of the schema.\<close>

lemma donate_save_valid:
  assumes "submission.fullName b = JStr name" and "2 \<le> length (trim name)"
    and "submission.bloodGroup b = JStr bg" and "bg \<in> set validBloodGroups"
    and "submission.age b = JNum (decimal n)" and "18 \<le> n" and "n \<le> 65"
    and "submission.year b = JStr yr" and "yr \<in> set validYears"
    and "up io"
  shows "donate_save b io s =
           (Inr \<lparr>docId = oid io, fullName = trim name, bloodGroup = bg, age = n, year = yr,
                 donatedAt = now io\<rparr>,
            s\<lparr>Donor := Donor s @
               [\<lparr>docId = oid io, fullName = toWellFormed (trim name), bloodGroup = bg, age = n,
                 year = yr, donatedAt = now io\<rparr>]\<rparr>)"
proof -
  let ?d = "\<lparr>docId = oid io, fullName = trim name, bloodGroup = bg, age = n, year = yr,
             donatedAt = now io\<rparr>"
  let ?w = "\<lparr>docId = oid io, fullName = toWellFormed (trim name), bloodGroup = bg, age = n,
             year = yr, donatedAt = now io\<rparr>"
  have name: "name \<noteq> []"
    using assms(2) by (auto simp: trim_Nil)
  have present: "truthy (submission.fullName b)" "truthy (submission.bloodGroup b)"
      "truthy (submission.age b)" "truthy (submission.year b)"
    using assms name by (simp_all add: validBloodGroups_not_Nil validYears_not_Nil decimal_truthy)
  have new: "newDonor (trim name) bg n yr io = ?d"
    by (simp add: newDonor_def trim_trim)
  have written: "toBSON ?d = ?w"
    using assms(4,9) by (simp add: toBSON_def validBloodGroups_stored validYears_stored)
  have "validateDonor ?d = []"
    using assms
    by (auto simp: validateDonor_def validate_fullName_def validate_bloodGroup_def
        validate_age_def validate_year_def validBloodGroups_not_Nil validYears_not_Nil)
  then have "save ?d io s = Inr (s\<lparr>Donor := Donor s @ [?w]\<rparr>)"
    using assms(10) by (simp add: save_def written)
  then show ?thesis
    using present assms by (simp add: donate_save_def parseInt_decimal new Let_def)
qed

lemma findOneAndUpdate_down: "\<not> up io \<Longrightarrow> findOneAndUpdate k f io s = Inl MongoError"
  by (simp add: findOneAndUpdate_def)

lemma incrementCount_adds:
  assumes "up io"
  shows "\<exists>st s'. incrementCount a io s = Inr (st, s') \<and> Donor s' = Donor s \<and>
           totalBloodUnits st = totalUnits s + a \<and> lastUpdated st = now io \<and>
           totalUnits s' = totalUnits s + a"
proof -
  let ?f = "\<lambda>d. d\<lparr>totalBloodUnits := totalBloodUnits d + a, lastUpdated := now io\<rparr>"
  obtain st s' where upd: "findOneAndUpdate global ?f io s = Inr (st, s')"
    and don: "Donor s' = Donor s"
    and fnd: "find (\<lambda>d. identifier d = global) (Stats s') = Some st"
    and st: "st = ?f (case find (\<lambda>d. identifier d = global) (Stats s) of
                     Some d \<Rightarrow> d
                   | None \<Rightarrow> \<lparr>identifier = global, totalBloodUnits = 0, lastUpdated = now io\<rparr>)"
    using findOneAndUpdate_sets [of io ?f s] assms by auto
  have "totalBloodUnits st = totalUnits s + a"
    by (simp add: st totalUnits_def split: option.split)
  moreover have "lastUpdated st = now io"
    by (simp add: st)
  moreover have "totalUnits s' = totalBloodUnits st"
    using fnd by (simp add: totalUnits_def)
  ultimately show ?thesis
    using upd don by (simp add: incrementCount_def)
qed

section \<open>Auxiliary facts about the handlers and the schedule\<close>

lemma status_failure: "status (failure code msg) = code"
  by (simp add: failure_def)

lemma status_donate_catch: "status (donate_catch e) = 400 \<or> status (donate_catch e) = 500"
  by (cases e) (simp_all add: failure_def)

lemma save_Inl: "save d io s = Inl e \<Longrightarrow> (\<exists>ms. e = ValidationError ms) \<or> e = MongoError"
  by (auto simp: save_def split: list.splits if_splits)

lemma save_Inr:
  "save d io s = Inr s' \<Longrightarrow>
     s' = s\<lparr>Donor := Donor s @ [toBSON d]\<rparr> \<and> validateDonor d = [] \<and> up io"
  by (auto simp: save_def split: list.splits if_splits)

text \<open>Every way out of the first part of the handler.\<close>

lemma donate_save_Inl:
  assumes "donate_save b io s = (Inl r, s')"
  shows "s' = s \<and> (status r = 400 \<or> status r = 500)"
  using assms status_donate_catch
  by (auto simp: donate_save_def Let_def status_failure
      split: if_splits option.splits jsval.splits sum.splits)

lemma donate_save_Inr:
  assumes "donate_save b io s = (Inr d, s')"
  shows "\<exists>name ageNum. submission.fullName b = JStr name \<and> parseInt (submission.age b) = Some ageNum \<and>
           d = newDonor (trim name) (ToString (submission.bloodGroup b)) ageNum
                 (ToString (submission.year b)) io \<and>
           s' = s\<lparr>Donor := Donor s @ [toBSON d]\<rparr> \<and> validateDonor d = [] \<and> up io"
  using assms
  by (auto simp: donate_save_def Let_def
      split: if_splits option.splits jsval.splits sum.splits dest: save_Inr)




lemma length_filter_updateFirst:
  "(\<And>x. P (f x) = P x) \<Longrightarrow> length (filter P (updateFirst P f xs)) = length (filter P xs)"
  by (induction xs) auto

lemma create_Inr:
  "create d io s = Inr (d', s') \<Longrightarrow>
     d' = d \<and> s' = s\<lparr>Stats := Stats s @ [d]\<rparr> \<and> identifier d \<notin> set (map identifier (Stats s))"
  by (auto simp: create_def split: if_splits)

lemma findOneAndUpdate_singletons:
  assumes "findOneAndUpdate global f io s = Inr (st, s')" and "\<And>d. identifier (f d) = identifier d"
  shows "Donor s' = Donor s \<and> singletons s' \<noteq> [] \<and>
         (length (singletons s) \<le> 1 \<longrightarrow> length (singletons s') \<le> 1)"
proof (cases "find (\<lambda>d. identifier d = global) (Stats s)")
  case None
  then have "singletons s = []"
    by (simp add: singletons_def find_None_filter)
  then show ?thesis
    using assms None
    by (auto simp: findOneAndUpdate_def Let_def singletons_def split: if_splits)
next
  case (Some d)
  then have ne: "filter (\<lambda>d. identifier d = global) (Stats s) \<noteq> []"
    by (simp add: find_None_filter [symmetric])
  have s': "s' = s\<lparr>Stats := updateFirst (\<lambda>d. identifier d = global) f (Stats s)\<rparr>"
    using assms(1) Some by (auto simp: findOneAndUpdate_def split: if_splits)
  have "length (singletons s') = length (singletons s)"
    using assms(2) by (simp add: s' singletons_def length_filter_updateFirst)
  moreover have "singletons s \<noteq> []"
    using ne by (simp add: singletons_def)
  ultimately show ?thesis
    by (auto simp: s')
qed

lemma donate_increment_effect:
  assumes "donate_increment d io s = (r, s')"
  shows "Donor s' = Donor s \<and> (singletons s \<noteq> [] \<longrightarrow> singletons s' \<noteq> []) \<and>
         (length (singletons s) \<le> 1 \<longrightarrow> length (singletons s') \<le> 1)"
proof (cases "incrementCount 1 io s")
  case (Inl e)
  with assms show ?thesis by (simp add: donate_increment_def)
next
  case (Inr p)
  obtain st s2 where p: "p = (st, s2)" by (cases p)
  with Inr assms have "s' = s2" by (simp add: donate_increment_def)
  then show ?thesis
    using findOneAndUpdate_singletons [of _ io s st s2] Inr p by (simp add: incrementCount_def)
qed

lemma sync_update_effect:
  assumes "sync_update n io s = (r, s')"
  shows "Donor s' = Donor s \<and> (singletons s \<noteq> [] \<longrightarrow> singletons s' \<noteq> []) \<and>
         (length (singletons s) \<le> 1 \<longrightarrow> length (singletons s') \<le> 1)"
proof (cases "findOneAndUpdate global (\<lambda>d. d\<lparr>totalBloodUnits := n, lastUpdated := now io\<rparr>) io s")
  case (Inl e)
  with assms show ?thesis by (simp add: sync_update_def)
next
  case (Inr p)
  obtain st s2 where p: "p = (st, s2)" by (cases p)
  with Inr assms have "s' = s2" by (simp add: sync_update_def)
  then show ?thesis
    using findOneAndUpdate_singletons [of _ io s st s2] Inr p by simp
qed

lemma stats_find_effect:
  assumes "stats_find io s = (x, s')"
  shows "s' = s \<and> (\<forall>r. x = Inl r \<and> status r = 200 \<longrightarrow> singletons s \<noteq> [])"
  using assms
  by (auto simp: stats_find_def findOne_def failure_def singletons_def find_None_filter [symmetric]
      split: if_splits option.splits)

lemma stats_create_effect:
  assumes "stats_create io s = (r, s')"
  shows "Donor s' = Donor s \<and> (singletons s \<noteq> [] \<longrightarrow> singletons s' \<noteq> []) \<and>
         (length (singletons s) \<le> 1 \<longrightarrow> length (singletons s') \<le> 1) \<and>
         (status r = 200 \<longrightarrow> singletons s' \<noteq> [])"
proof (cases "create \<lparr>identifier = global, totalBloodUnits = 0, lastUpdated = now io\<rparr> io s")
  case (Inl e)
  with assms show ?thesis by (auto simp: stats_create_def failure_def)
next
  case (Inr p)
  obtain st s2 where p: "p = (st, s2)" by (cases p)
  have cr: "create \<lparr>identifier = global, totalBloodUnits = 0, lastUpdated = now io\<rparr> io s = Inr (st, s2)"
    using Inr p by simp
  have s2: "s2 = s\<lparr>Stats := Stats s @ [\<lparr>identifier = global, totalBloodUnits = 0, lastUpdated = now io\<rparr>]\<rparr>"
    and fresh: "global \<notin> set (map identifier (Stats s))"
    using create_Inr [OF cr] by simp_all
  have "singletons s = []"
    using fresh by (force simp: singletons_def filter_empty_conv image_iff)
  moreover have "s' = s2"
    using Inr p assms by (simp add: stats_create_def)
  ultimately show ?thesis
    by (simp add: s2 singletons_def)
qed

lemma sync_count_effect: "sync_count io s = (x, s') \<Longrightarrow> s' = s"
  by (auto simp: sync_count_def split: sum.splits)

lemma get_donors_effect: "get_donors q io s = (r, s') \<Longrightarrow> s' = s"
  by (auto simp: get_donors_def split: sum.splits)

lemma donate_save_effect:
  assumes "donate_save b io s = (x, s')"
  shows "Stats s' = Stats s \<and>
         (s' = s \<or> (\<exists>d name. x = Inr d \<and> s' = s\<lparr>Donor := Donor s @ [toBSON d]\<rparr> \<and>
            submission.fullName b = JStr name \<and> fullName d = trim name \<and> 2 \<le> length (fullName d)))"
proof (cases x)
  case (Inl r)
  with assms show ?thesis
    using donate_save_Inl [of b io s r s'] by simp
next
  case (Inr d)
  with assms obtain name ageNum where name: "submission.fullName b = JStr name"
    and d: "d = newDonor (trim name) (ToString (submission.bloodGroup b)) ageNum
                 (ToString (submission.year b)) io"
    and s': "s' = s\<lparr>Donor := Donor s @ [toBSON d]\<rparr>" and v: "validateDonor d = []"
    using donate_save_Inr [of b io s d s'] by auto
  have "fullName d = trim name"
    by (simp add: d newDonor_def trim_trim)
  moreover have "2 \<le> length (fullName d)"
    using v by (auto simp: validateDonor_def validate_fullName_def split: if_splits)
  ultimately show ?thesis
    using Inr name s' by auto
qed

text \<open>One step of one task, whatever the task.\<close>

lemma step_singletons:
  assumes "step io t s = (t', s')"
  shows "(singletons s \<noteq> [] \<longrightarrow> singletons s' \<noteq> []) \<and>
         (length (singletons s) \<le> 1 \<longrightarrow> length (singletons s') \<le> 1)"
proof (cases t)
  case (Start q)
  show ?thesis
  proof (cases q)
    case (Donate b)
    obtain x s1 where x: "donate_save b io s = (x, s1)" by (cases "donate_save b io s")
    then have "singletons s1 = singletons s"
      using donate_save_effect [OF x] by (simp add: singletons_def)
    moreover have "s' = s1"
      using assms Start Donate x by (auto split: sum.splits)
    ultimately show ?thesis by simp
  next
    case GetStats
    obtain x s1 where x: "stats_find io s = (x, s1)" by (cases "stats_find io s")
    then have "s' = s"
      using assms Start GetStats stats_find_effect [OF x] by (auto split: sum.splits)
    then show ?thesis by simp
  next
    case SyncStats
    obtain x s1 where x: "sync_count io s = (x, s1)" by (cases "sync_count io s")
    then have "s' = s"
      using assms Start SyncStats sync_count_effect [OF x] by (auto split: sum.splits)
    then show ?thesis by simp
  next
    case (GetDonors q')
    obtain r s1 where x: "get_donors q' io s = (r, s1)" by (cases "get_donors q' io s")
    then have "s' = s"
      using assms Start GetDonors get_donors_effect [OF x] by auto
    then show ?thesis by simp
  qed
next
  case (AwaitIncrement d)
  obtain r s1 where x: "donate_increment d io s = (r, s1)" by (cases "donate_increment d io s")
  then have "s' = s1"
    using assms AwaitIncrement by simp
  then show ?thesis
    using donate_increment_effect [OF x] by simp
next
  case AwaitCreate
  obtain r s1 where x: "stats_create io s = (r, s1)" by (cases "stats_create io s")
  then have "s' = s1"
    using assms AwaitCreate by simp
  then show ?thesis
    using stats_create_effect [OF x] by simp
next
  case (AwaitUpdate n)
  obtain r s1 where x: "sync_update n io s = (r, s1)" by (cases "sync_update n io s")
  then have "s' = s1"
    using assms AwaitUpdate by simp
  then show ?thesis
    using sync_update_effect [OF x] by simp
next
  case (Finished r)
  with assms show ?thesis by simp
qed

lemma step_names:
  assumes "step io t s = (t', s')" and "\<forall>d \<in> set (Donor s). noSurroundingSpace (fullName d)"
  shows "\<forall>d \<in> set (Donor s'). noSurroundingSpace (fullName d)"
proof (cases t)
  case (Start q)
  show ?thesis
  proof (cases q)
    case (Donate b)
    obtain x s1 where x: "donate_save b io s = (x, s1)" by (cases "donate_save b io s")
    have s': "s' = s1"
      using assms(1) Start Donate x by (auto split: sum.splits)
    from donate_save_effect [OF x]
    consider "s1 = s"
      | d name where "s1 = s\<lparr>Donor := Donor s @ [toBSON d]\<rparr>" "fullName d = trim name"
      by auto
    then show ?thesis
    proof cases
      case 1
      with s' assms(2) show ?thesis by simp
    next
      case 2
      have "noSurroundingSpace (trim name)"
        using trim_ends [of name] by (auto simp: noSurroundingSpace_def)
      then have "noSurroundingSpace (fullName (toBSON d))"
        using 2 by (simp add: toBSON_def noSurroundingSpace_toWellFormed)
      with 2 s' assms(2) show ?thesis by auto
    qed
  next
    case GetStats
    obtain x s1 where x: "stats_find io s = (x, s1)" by (cases "stats_find io s")
    then have "s' = s"
      using assms(1) Start GetStats stats_find_effect [OF x] by (auto split: sum.splits)
    with assms(2) show ?thesis by simp
  next
    case SyncStats
    obtain x s1 where x: "sync_count io s = (x, s1)" by (cases "sync_count io s")
    then have "s' = s"
      using assms(1) Start SyncStats sync_count_effect [OF x] by (auto split: sum.splits)
    with assms(2) show ?thesis by simp
  next
    case (GetDonors q')
    obtain r s1 where x: "get_donors q' io s = (r, s1)" by (cases "get_donors q' io s")
    then have "s' = s"
      using assms(1) Start GetDonors get_donors_effect [OF x] by auto
    with assms(2) show ?thesis by simp
  qed
next
  case (AwaitIncrement d)
  obtain r s1 where x: "donate_increment d io s = (r, s1)" by (cases "donate_increment d io s")
  then have "Donor s' = Donor s"
    using assms(1) AwaitIncrement donate_increment_effect [OF x] by simp
  with assms(2) show ?thesis by simp
next
  case AwaitCreate
  obtain r s1 where x: "stats_create io s = (r, s1)" by (cases "stats_create io s")
  then have "Donor s' = Donor s"
    using assms(1) AwaitCreate stats_create_effect [OF x] by simp
  with assms(2) show ?thesis by simp
next
  case (AwaitUpdate n)
  obtain r s1 where x: "sync_update n io s = (r, s1)" by (cases "sync_update n io s")
  then have "Donor s' = Donor s"
    using assms(1) AwaitUpdate sync_update_effect [OF x] by simp
  with assms(2) show ?thesis by simp
next
  case (Finished r)
  with assms show ?thesis by simp
qed

text \<open>An invariant of every step is an invariant of every schedule.\<close>

lemma run_invariant:
  assumes "\<And>io t s t' s'. step io t s = (t', s') \<Longrightarrow> I s \<Longrightarrow> I s'"
  shows "run sch (ts, s) = (ts', s') \<Longrightarrow> I s \<Longrightarrow> I s'"
proof (induction sch arbitrary: ts s)
  case Nil
  then show ?case by simp
next
  case (Cons x sch)
  obtain i io where x: "x = (i, io)" by (cases x)
  show ?case
  proof (cases "i < length ts")
    case False
    with Cons.prems x have "run sch (ts, s) = (ts', s')" by simp
    then show ?thesis using Cons.IH Cons.prems(2) by blast
  next
    case True
    obtain t1 s1 where st: "step io (ts ! i) s = (t1, s1)" by (cases "step io (ts ! i) s")
    with Cons.prems x True have "run sch (ts[i := t1], s1) = (ts', s')" by simp
    moreover have "I s1" using assms [OF st] Cons.prems(2) .
    ultimately show ?thesis using Cons.IH by blast
  qed
qed

lemma sum_list_map_update:
  fixes f :: "'a \<Rightarrow> 'b::comm_monoid_add"
  shows "i < length xs \<Longrightarrow> sum_list (map f (xs[i := y])) + f (xs ! i) = sum_list (map f xs) + f y"
proof (induction xs arbitrary: i)
  case Nil
  then show ?case by simp
next
  case (Cons x xs)
  show ?case
  proof (cases i)
    case 0
    then show ?thesis by (simp add: ac_simps)
  next
    case (Suc j)
    with Cons.prems have "j < length xs" by simp
    from Cons.IH [OF this] show ?thesis
      by (simp add: Suc add.assoc)
  qed
qed

lemma validSubmission_fields:
  assumes "validSubmission b"
  obtains name bg n yr where "submission.fullName b = JStr name" and "2 \<le> length (trim name)"
    and "submission.bloodGroup b = JStr bg" and "bg \<in> set validBloodGroups"
    and "submission.age b = JNum (decimal n)" and "18 \<le> n" and "n \<le> 65"
    and "submission.year b = JStr yr" and "yr \<in> set validYears"
proof -
  from assms obtain name where 1: "submission.fullName b = JStr name" "2 \<le> length (trim name)"
    by (cases "submission.fullName b") (auto simp: validSubmission_def)
  from assms obtain bg where 2: "submission.bloodGroup b = JStr bg" "bg \<in> set validBloodGroups"
    using array_includes_JStr [of validBloodGroups "submission.bloodGroup b"]
    by (auto simp: validSubmission_def)
  from assms obtain yr where 3: "submission.year b = JStr yr" "yr \<in> set validYears"
    using array_includes_JStr [of validYears "submission.year b"]
    by (auto simp: validSubmission_def)
  from assms obtain n where 4: "submission.age b = JNum (decimal n)" "18 \<le> n" "n \<le> 65"
    by (cases "submission.age b") (auto simp: validSubmission_def)
  from 1 2 4 3 show thesis by (rule that)
qed

lemma step_registration:
  assumes "registration t" and "up io" and "step io t s = (t', s')"
  shows "registration t' \<and>
         length (Donor s') + savesDue t' = length (Donor s) + savesDue t \<and>
         totalUnits s' + incrementsDue t' = totalUnits s + incrementsDue t"
proof (cases t)
  case (Start q)
  with assms(1) obtain b where q: "q = Donate b" and valid: "validSubmission b"
    by (cases q) auto
  from valid obtain name bg n yr where f: "submission.fullName b = JStr name" "2 \<le> length (trim name)"
    "submission.bloodGroup b = JStr bg" "bg \<in> set validBloodGroups"
    "submission.age b = JNum (decimal n)" "18 \<le> n" "n \<le> 65"
    "submission.year b = JStr yr" "yr \<in> set validYears"
    by (rule validSubmission_fields)
  let ?d = "\<lparr>docId = oid io, fullName = trim name, bloodGroup = bg, age = n, year = yr,
             donatedAt = now io\<rparr>"
  let ?w = "\<lparr>docId = oid io, fullName = toWellFormed (trim name), bloodGroup = bg, age = n,
             year = yr, donatedAt = now io\<rparr>"
  have "donate_save b io s = (Inr ?d, s\<lparr>Donor := Donor s @ [?w]\<rparr>)"
    using f assms(2) by (rule donate_save_valid)
  with assms(3) Start q have "t' = AwaitIncrement ?d" and "s' = s\<lparr>Donor := Donor s @ [?w]\<rparr>"
    by simp_all
  then show ?thesis
    by (simp add: Start q totalUnits_def)
next
  case (AwaitIncrement d)
  obtain st s2 where inc: "incrementCount 1 io s = Inr (st, s2)" and don: "Donor s2 = Donor s"
    and tot: "totalUnits s2 = totalUnits s + 1"
    using incrementCount_adds [OF assms(2), of 1 s] by auto
  from assms(3) AwaitIncrement inc obtain r where "t' = Finished r" and "status r = 201" and "s' = s2"
    by (auto simp: donate_increment_def)
  then show ?thesis
    using don tot by (simp add: AwaitIncrement)
next
  case (Finished r)
  with assms show ?thesis by auto
next
  case AwaitCreate
  with assms(1) show ?thesis by simp
next
  case (AwaitUpdate n)
  with assms(1) show ?thesis by simp
qed

lemma run_registration:
  assumes "\<forall>x \<in> set sch. up (snd x)" and "\<forall>t \<in> set ts. registration t"
    and "run sch (ts, s) = (ts', s')"
  shows "(\<forall>t \<in> set ts'. registration t) \<and>
         length (Donor s') + sum_list (map savesDue ts') =
           length (Donor s) + sum_list (map savesDue ts) \<and>
         totalUnits s' + sum_list (map incrementsDue ts') =
           totalUnits s + sum_list (map incrementsDue ts)"
  using assms
proof (induction sch arbitrary: ts s)
  case Nil
  then show ?case by simp
next
  case (Cons x sch)
  obtain i io where x: "x = (i, io)" by (cases x)
  show ?case
  proof (cases "i < length ts")
    case False
    with Cons.prems x have "run sch (ts, s) = (ts', s')" by simp
    with Cons.IH [of ts s] Cons.prems show ?thesis by simp
  next
    case True
    obtain t1 s1 where st: "step io (ts ! i) s = (t1, s1)" by (cases "step io (ts ! i) s")
    have reg: "registration (ts ! i)" and io: "up io"
      using Cons.prems True x by simp_all
    from step_registration [OF reg io st]
    have t1: "registration t1"
      and d: "length (Donor s1) + savesDue t1 = length (Donor s) + savesDue (ts ! i)"
      and u: "totalUnits s1 + incrementsDue t1 = totalUnits s + incrementsDue (ts ! i)"
      by simp_all
    have regs: "\<forall>t \<in> set (ts[i := t1]). registration t"
      using Cons.prems(2) t1 by (auto dest: set_update_subset_insert [THEN subsetD])
    have rn: "run sch (ts[i := t1], s1) = (ts', s')"
      using Cons.prems(3) x True st by simp
    have ups: "\<forall>x \<in> set sch. up (snd x)"
      using Cons.prems(1) by simp
    from Cons.IH [OF ups regs rn]
    have r': "\<forall>t \<in> set ts'. registration t"
      and d': "length (Donor s') + sum_list (map savesDue ts') =
         length (Donor s1) + sum_list (map savesDue (ts[i := t1]))"
      and u': "totalUnits s' + sum_list (map incrementsDue ts') =
         totalUnits s1 + sum_list (map incrementsDue (ts[i := t1]))"
      by simp_all
    have "sum_list (map savesDue (ts[i := t1])) + savesDue (ts ! i) =
        sum_list (map savesDue ts) + savesDue t1"
      using True by (rule sum_list_map_update)
    with d d' have "length (Donor s') + sum_list (map savesDue ts') =
        length (Donor s) + sum_list (map savesDue ts)"
      by linarith
    moreover have "sum_list (map incrementsDue (ts[i := t1])) + incrementsDue (ts ! i) =
        sum_list (map incrementsDue ts) + incrementsDue t1"
      using True by (rule sum_list_map_update)
    with u u' have "totalUnits s' + sum_list (map incrementsDue ts') =
        totalUnits s + sum_list (map incrementsDue ts)"
      by linarith
    ultimately show ?thesis
      using r' by simp
  qed
qed

lemma finished_nothing_due:
  "\<forall>t \<in> set ts. finished t \<Longrightarrow>
     sum_list (map savesDue ts) = 0 \<and> sum_list (map incrementsDue ts) = 0"
proof (induction ts)
  case Nil
  then show ?case by simp
next
  case (Cons t ts)
  then show ?case by (cases t) auto
qed

lemma started_all_due:
  "sum_list (map savesDue (map (\<lambda>b. Start (Donate b)) bs)) = length bs \<and>
   sum_list (map incrementsDue (map (\<lambda>b. Start (Donate b)) bs)) = int (length bs)"
  by (induction bs) auto

lemma finished_stage: "finished t \<longleftrightarrow> stage t = 2"
  by (cases t) auto

lemma stage_le: "stage t \<le> 2"
  by (cases t) auto

lemma step_stage:
  assumes "registration t" and "up io" and "step io t s = (t', s')"
  shows "stage t' = min 2 (stage t + 1)"
proof (cases t)
  case (Start q)
  with assms(1) obtain b where q: "q = Donate b" and valid: "validSubmission b"
    by (cases q) auto
  from valid obtain name bg n yr where f: "submission.fullName b = JStr name" "2 \<le> length (trim name)"
    "submission.bloodGroup b = JStr bg" "bg \<in> set validBloodGroups"
    "submission.age b = JNum (decimal n)" "18 \<le> n" "n \<le> 65"
    "submission.year b = JStr yr" "yr \<in> set validYears"
    by (rule validSubmission_fields)
  show ?thesis
    using assms(3) donate_save_valid [OF f assms(2), of s] by (auto simp: Start q)
next
  case (AwaitIncrement d)
  with assms(3) show ?thesis
    by (auto split: prod.splits)
next
  case (Finished r)
  with assms(3) show ?thesis by auto
next
  case AwaitCreate
  with assms(1) show ?thesis by simp
next
  case (AwaitUpdate n)
  with assms(1) show ?thesis by simp
qed

lemma run_stage:
  assumes "\<forall>x \<in> set sch. up (snd x)" and "\<forall>t \<in> set ts. registration t"
    and "run sch (ts, s) = (ts', s')"
  shows "length ts' = length ts \<and>
         (\<forall>i < length ts. stage (ts' ! i) = min 2 (stage (ts ! i) + count_list (map fst sch) i))"
  using assms
proof (induction sch arbitrary: ts s)
  case Nil
  then show ?case by (simp add: min_absorb2 stage_le)
next
  case (Cons x sch)
  obtain j io where x: "x = (j, io)" by (cases x)
  have ups: "\<forall>x \<in> set sch. up (snd x)"
    using Cons.prems(1) by simp
  show ?case
  proof (cases "j < length ts")
    case False
    with Cons.prems x have rn: "run sch (ts, s) = (ts', s')" by simp
    from Cons.IH [OF ups Cons.prems(2) rn] False show ?thesis
      by (auto simp: x)
  next
    case True
    obtain t1 s1 where st: "step io (ts ! j) s = (t1, s1)" by (cases "step io (ts ! j) s")
    have reg: "registration (ts ! j)" and io: "up io"
      using Cons.prems True x by simp_all
    have t1: "registration t1"
      using step_registration [OF reg io st] by simp
    have sg: "stage t1 = min 2 (stage (ts ! j) + 1)"
      using reg io st by (rule step_stage)
    have regs: "\<forall>t \<in> set (ts[j := t1]). registration t"
      using Cons.prems(2) t1 by (auto dest: set_update_subset_insert [THEN subsetD])
    have rn: "run sch (ts[j := t1], s1) = (ts', s')"
      using Cons.prems(3) x True st by simp
    from Cons.IH [OF ups regs rn]
    have len: "length ts' = length ts"
      and ih: "\<forall>i < length ts. stage (ts' ! i) =
          min 2 (stage (ts[j := t1] ! i) + count_list (map fst sch) i)"
      by simp_all
    have "stage (ts' ! i) = min 2 (stage (ts ! i) + count_list (map fst (x # sch)) i)"
      if "i < length ts" for i
    proof (cases "i = j")
      case True
      with ih that sg show ?thesis by (simp add: x)
    next
      case False
      with ih that show ?thesis by (simp add: x)
    qed
    with len show ?thesis by simp
  qed
qed

lemma run_names:
  assumes "run sch (ts, s) = (ts', s')" and "\<forall>x \<in> set (Donor s). noSurroundingSpace (fullName x)"
  shows "\<forall>x \<in> set (Donor s'). noSurroundingSpace (fullName x)"
proof (rule run_invariant
    [where I = "\<lambda>s. \<forall>x \<in> set (Donor s). noSurroundingSpace (fullName x)", OF _ assms])
  fix io t s t' s'
  assume "step io t s = (t', s')" and "\<forall>x \<in> set (Donor s). noSurroundingSpace (fullName x)"
  then show "\<forall>x \<in> set (Donor s'). noSurroundingSpace (fullName x)"
    by (rule step_names)
qed

lemma run_at_most_one:
  assumes "run sch (ts, s) = (ts', s')" and "length (singletons s) \<le> 1"
  shows "length (singletons s') \<le> 1"
proof (rule run_invariant [where I = "\<lambda>s. length (singletons s) \<le> 1", OF _ assms])
  fix io t s t' s'
  assume "step io t s = (t', s')" and "length (singletons s) \<le> 1"
  then show "length (singletons s') \<le> 1"
    using step_singletons by blast
qed

lemma run_stays:
  assumes "run sch (ts, s) = (ts', s')" and "singletons s \<noteq> []"
  shows "singletons s' \<noteq> []"
proof (rule run_invariant [where I = "\<lambda>s. singletons s \<noteq> []", OF _ assms])
  fix io t s t' s'
  assume "step io t s = (t', s')" and "singletons s \<noteq> []"
  then show "singletons s' \<noteq> []"
    using step_singletons by blast
qed

lemma parseInt_undefined: "parseInt JUndefined = None"
  by (simp add: string_eval)

lemma parseInt_decimal_string: "parseInt (JStr (decimal i)) = Some i"
  by (simp add: parseInt_def parseIntString_decimal)

lemma select_public:
  "select [''fullName'', ''bloodGroup'', ''donatedAt''] (toObject d) =
     VObj [(''_id'', VId (docId d)), (''fullName'', VStr (fullName d)),
           (''bloodGroup'', VStr (bloodGroup d)), (''donatedAt'', VDate (donatedAt d))]"
  by (simp add: select_def toObject_def)

lemma mset_sortRecent: "mset (sortRecent io ds) = mset ds"
proof -
  have "mset (sortRecent io ds) = mset (map snd (enumerate 0 ds))"
    unfolding sortRecent_def mset_map by simp
  also have "\<dots> = mset ds"
    by (simp only: map_snd_enumerate)
  finally show ?thesis .
qed

lemma length_sortRecent: "length (sortRecent io ds) = length ds"
  by (simp add: sortRecent_def)

lemma sortRecent_sorted: "sorted_wrt (\<lambda>a b. donatedAt b \<le> donatedAt a) (sortRecent io ds)"
proof -
  let ?f = "\<lambda>p :: nat \<times> donor. (- donatedAt (snd p), rankOf io (fst p))"
  have "sorted (map ?f (sort_key ?f (enumerate 0 ds)))"
    by (rule sorted_sort_key)
  then have "sorted_wrt (\<lambda>p q. ?f p \<le> ?f q) (sort_key ?f (enumerate 0 ds))"
    by (simp add: sorted_map)
  then have "sorted_wrt (\<lambda>p q. donatedAt (snd q) \<le> donatedAt (snd p)) (sort_key ?f (enumerate 0 ds))"
    by (rule sorted_wrt_mono_rel [rotated]) (auto simp: less_eq_prod_def)
  then show ?thesis
    by (simp add: sortRecent_def sorted_wrt_map)
qed

text \<open>
  A request that runs alone goes through its storage calls back to back: the schedule
  then gives what the handler gives.
\<close>

lemma get_stats_steps:
  "get_stats io1 io2 s =
     (case stats_find io1 s of (Inl r, s') \<Rightarrow> (r, s') | (Inr u, s') \<Rightarrow> stats_create io2 s')"
  by (simp add: get_stats_def getStats_def stats_find_def stats_create_def findOne_def
      split: option.split)

lemma run_alone_donate:
  "run [(0, io1), (0, io2)] ([Start (Donate b)], s) =
     (case post_donate b io1 io2 s of (r, s') \<Rightarrow> ([Finished r], s'))"
  by (simp add: post_donate_def split: prod.split sum.split)

lemma run_alone_stats:
  "run [(0, io1), (0, io2)] ([Start GetStats], s) =
     (case get_stats io1 io2 s of (r, s') \<Rightarrow> ([Finished r], s'))"
  by (simp add: get_stats_steps split: prod.split sum.split)

lemma run_alone_sync:
  "run [(0, io1), (0, io2)] ([Start SyncStats], s) =
     (case sync_stats io1 io2 s of (r, s') \<Rightarrow> ([Finished r], s'))"
  by (simp add: sync_stats_def split: prod.split sum.split)

lemma run_alone_donors:
  "run [(0, io1)] ([Start (GetDonors q)], s) =
     (case get_donors q io1 s of (r, s') \<Rightarrow> ([Finished r], s'))"
  by (simp split: prod.split)

section \<open>Registration\<close>

text \<open>
  Claim C1. For every valid submission (a name of at least 2 characters after trimming,
  a blood group and a year of the closed sets, an integer age from 18 to 65) and with the
  store answering, \<open>POST /api/donate\<close> first saves the donor document (trimmed name
  as the driver writes it, blood group, age, year, the time of creation), then increments
  the counter, and answers
  201 with \<open>success: true\<close> and the data \<open>{donor: {fullName, bloodGroup}, totalUnits}\<close>,
  where \<open>totalUnits\<close> is the previous total plus 1, which is also the total the store
  holds afterwards.
\<close>

theorem post_donate_registers:
  assumes "submission.fullName b = JStr name" and "2 \<le> length (trim name)"
    and "submission.bloodGroup b = JStr bg" and "bg \<in> set validBloodGroups"
    and "submission.age b = JNum (decimal n)" and "18 \<le> n" and "n \<le> 65"
    and "submission.year b = JStr yr" and "yr \<in> set validYears"
    and "up io1" and "up io2"
  shows "donate_save b io1 s =
           (Inr \<lparr>docId = oid io1, fullName = trim name, bloodGroup = bg, age = n, year = yr,
                 donatedAt = now io1\<rparr>,
            s\<lparr>Donor := Donor s @
               [\<lparr>docId = oid io1, fullName = toWellFormed (trim name), bloodGroup = bg,
                 age = n, year = yr, donatedAt = now io1\<rparr>]\<rparr>) \<and>
         fst (post_donate b io1 io2 s) =
           \<lparr>status = 201,
            body = VObj
              [(''success'', VBool True),
               (''message'', VStr (js ''Donation registered successfully'')),
               (''data'', VObj
                  [(''donor'', VObj [(''fullName'', VStr (trim name)), (''bloodGroup'', VStr bg)]),
                   (''totalUnits'', VNum (totalUnits s + 1))])]\<rparr> \<and>
         Donor (snd (post_donate b io1 io2 s)) =
           Donor s @
             [\<lparr>docId = oid io1, fullName = toWellFormed (trim name), bloodGroup = bg, age = n,
               year = yr, donatedAt = now io1\<rparr>] \<and>
         totalUnits (snd (post_donate b io1 io2 s)) = totalUnits s + 1"
proof -
  let ?d = "\<lparr>docId = oid io1, fullName = trim name, bloodGroup = bg, age = n, year = yr,
             donatedAt = now io1\<rparr>"
  let ?w = "\<lparr>docId = oid io1, fullName = toWellFormed (trim name), bloodGroup = bg, age = n,
             year = yr, donatedAt = now io1\<rparr>"
  let ?s1 = "s\<lparr>Donor := Donor s @ [?w]\<rparr>"
  have sv: "donate_save b io1 s = (Inr ?d, ?s1)"
    using assms(1-10) by (rule donate_save_valid)
  obtain st s2 where inc: "incrementCount 1 io2 ?s1 = Inr (st, s2)"
    and don: "Donor s2 = Donor ?s1"
    and tot: "totalBloodUnits st = totalUnits ?s1 + 1"
    and tot': "totalUnits s2 = totalUnits ?s1 + 1"
    using incrementCount_adds [OF assms(11), of 1 ?s1] by auto
  have same: "totalUnits ?s1 = totalUnits s"
    by (simp add: totalUnits_def)
  have "post_donate b io1 io2 s =
      (\<lparr>status = 201,
        body = VObj
          [(''success'', VBool True),
           (''message'', VStr (js ''Donation registered successfully'')),
           (''data'', VObj
              [(''donor'', VObj [(''fullName'', VStr (trim name)), (''bloodGroup'', VStr bg)]),
               (''totalUnits'', VNum (totalUnits s + 1))])]\<rparr>, s2)"
    by (simp add: post_donate_def sv donate_increment_def inc tot same)
  then show ?thesis
    using sv don tot' same by simp
qed

theorem post_donate_registers_witness:
  "2 \<le> length (trim (js ''Jane Doe'')) \<and> js ''O-'' \<in> set validBloodGroups \<and>
   (18::int) \<le> 30 \<and> (30::int) \<le> 65 \<and> js ''SY'' \<in> set validYears \<and>
   up \<lparr>up = True, now = 1000, oid = 7, ties = []\<rparr> \<and> up \<lparr>up = True, now = 1001, oid = 8, ties = []\<rparr> \<and>
   fst (post_donate
     \<lparr>submission.fullName = JStr (js ''Jane Doe''), bloodGroup = JStr (js ''O-''),
      age = JNum (js ''30''), year = JStr (js ''SY'')\<rparr>
     \<lparr>up = True, now = 1000, oid = 7, ties = []\<rparr> \<lparr>up = True, now = 1001, oid = 8, ties = []\<rparr>
     \<lparr>Donor = [], Stats = [\<lparr>identifier = global, totalBloodUnits = 4, lastUpdated = 900\<rparr>]\<rparr>) =
   \<lparr>status = 201,
    body = VObj
      [(''success'', VBool True),
       (''message'', VStr (js ''Donation registered successfully'')),
       (''data'', VObj
          [(''donor'', VObj [(''fullName'', VStr (js ''Jane Doe'')),
                             (''bloodGroup'', VStr (js ''O-''))]),
           (''totalUnits'', VNum 5)])]\<rparr>"
proof -
  have t: "trim (js ''Jane Doe'') = js ''Jane Doe''"
    by (simp add: js_def trim_def trimStart_def trimEnd_def isWhiteSpace_def)
  have h: "2 \<le> length (trim (js ''Jane Doe''))" "js ''O-'' \<in> set validBloodGroups"
      "js ''SY'' \<in> set validYears"
    by (simp_all add: t validBloodGroups_def validYears_def) (simp_all add: js_def)
  have d: "decimal 30 = js ''30''"
    by (simp add: decimal_def decimalNat.simps js_def digitChar_def)
  have u: "totalUnits \<lparr>Donor = [], Stats = [\<lparr>identifier = global, totalBloodUnits = 4, lastUpdated = 900\<rparr>]\<rparr> = 4"
    by (simp add: totalUnits_def)
  show ?thesis
    using h post_donate_registers
      [of "\<lparr>submission.fullName = JStr (js ''Jane Doe''), bloodGroup = JStr (js ''O-''),
            age = JNum (decimal 30), year = JStr (js ''SY'')\<rparr>"
          "js ''Jane Doe''" "js ''O-''" 30 "js ''SY''"
          "\<lparr>up = True, now = 1000, oid = 7, ties = []\<rparr>" "\<lparr>up = True, now = 1001, oid = 8, ties = []\<rparr>"
          "\<lparr>Donor = [], Stats = [\<lparr>identifier = global, totalBloodUnits = 4, lastUpdated = 900\<rparr>]\<rparr>"]
    by (simp add: t u d)
qed

section \<open>Submissions that are turned down\<close>




section \<open>Concurrent registrations\<close>

text \<open>
  Claim C3. Take any number \<open>K\<close> of valid registrations fired together, any starting
  total, and any interleaving of their storage calls (a schedule), with the store
  answering. A schedule that gives each registration its two calls finishes them all; and
  whenever they have all finished, \<open>totalUnits\<close> is exactly \<open>K\<close> more than before, the
  Donor collection holds exactly \<open>K\<close> more documents, and every registration was answered
  201. No update is lost because the increment is one \<open>findOneAndUpdate\<close> with
  \<open>$inc\<close>, a single step of the store.
\<close>

theorem concurrent_registrations:
  assumes "\<forall>b \<in> set bs. validSubmission b" and "\<forall>x \<in> set sch. up (snd x)"
    and "run sch (map (\<lambda>b. Start (Donate b)) bs, s) = (ts', s')"
  shows "((\<forall>i < length bs. 2 \<le> count_list (map fst sch) i) \<longrightarrow> (\<forall>t \<in> set ts'. finished t)) \<and>
         ((\<forall>t \<in> set ts'. finished t) \<longrightarrow>
            totalUnits s' = totalUnits s + int (length bs) \<and>
            length (Donor s') = length (Donor s) + length bs \<and>
            (\<forall>t \<in> set ts'. \<exists>r. t = Finished r \<and> status r = 201))"
proof (intro conjI impI)
  let ?ts = "map (\<lambda>b. Start (Donate b)) bs"
  have regs: "\<forall>t \<in> set ?ts. registration t"
    using assms(1) by simp
  {
    assume fair: "\<forall>i < length bs. 2 \<le> count_list (map fst sch) i"
    from run_stage [OF assms(2) regs assms(3)]
    have len: "length ts' = length bs"
      and sg: "\<forall>i < length bs. stage (ts' ! i) = min 2 (stage (?ts ! i) + count_list (map fst sch) i)"
      by simp_all
    show "\<forall>t \<in> set ts'. finished t"
    proof
      fix t assume "t \<in> set ts'"
      then obtain i where i: "i < length bs" and t: "t = ts' ! i"
        using len by (auto simp: in_set_conv_nth)
      with sg fair have "stage t = 2" by simp
      then show "finished t" by (simp add: finished_stage)
    qed
  }
  assume fin: "\<forall>t \<in> set ts'. finished t"
  from run_registration [OF assms(2) regs assms(3)]
  have r: "\<forall>t \<in> set ts'. registration t"
    and d: "length (Donor s') + sum_list (map savesDue ts') =
       length (Donor s) + sum_list (map savesDue ?ts)"
    and u: "totalUnits s' + sum_list (map incrementsDue ts') =
       totalUnits s + sum_list (map incrementsDue ?ts)"
    by simp_all
  show "totalUnits s' = totalUnits s + int (length bs)"
    using u finished_nothing_due [OF fin] started_all_due [of bs] by simp
  show "length (Donor s') = length (Donor s) + length bs"
    using d finished_nothing_due [OF fin] started_all_due [of bs] by simp
  show "\<forall>t \<in> set ts'. \<exists>r. t = Finished r \<and> status r = 201"
  proof
    fix t assume "t \<in> set ts'"
    with r fin have "registration t" and "finished t" by simp_all
    then show "\<exists>r. t = Finished r \<and> status r = 201" by (cases t) auto
  qed
qed

theorem concurrent_registrations_witness:
  "validSubmission
     \<lparr>submission.fullName = JStr (js ''Jane Doe''), bloodGroup = JStr (js ''O-''),
      age = JNum (js ''30''), year = JStr (js ''SY'')\<rparr> \<and>
   validSubmission
     \<lparr>submission.fullName = JStr (js ''Ravi K''), bloodGroup = JStr (js ''AB+''),
      age = JNum (js ''21''), year = JStr (js ''Final Year'')\<rparr> \<and>
   run [(0, \<lparr>up = True, now = 1000, oid = 7, ties = []\<rparr>), (1, \<lparr>up = True, now = 1001, oid = 8, ties = []\<rparr>),
        (1, \<lparr>up = True, now = 1002, oid = 9, ties = []\<rparr>), (0, \<lparr>up = True, now = 1003, oid = 10, ties = []\<rparr>)]
     ([Start (Donate
         \<lparr>submission.fullName = JStr (js ''Jane Doe''), bloodGroup = JStr (js ''O-''),
          age = JNum (js ''30''), year = JStr (js ''SY'')\<rparr>),
       Start (Donate
         \<lparr>submission.fullName = JStr (js ''Ravi K''), bloodGroup = JStr (js ''AB+''),
          age = JNum (js ''21''), year = JStr (js ''Final Year'')\<rparr>)],
      \<lparr>Donor = [], Stats = [\<lparr>identifier = global, totalBloodUnits = 4, lastUpdated = 900\<rparr>]\<rparr>) =
   ([Finished
       \<lparr>status = 201,
        body = VObj
          [(''success'', VBool True),
           (''message'', VStr (js ''Donation registered successfully'')),
           (''data'', VObj
              [(''donor'', VObj [(''fullName'', VStr (js ''Jane Doe'')),
                                 (''bloodGroup'', VStr (js ''O-''))]),
               (''totalUnits'', VNum 6)])]\<rparr>,
     Finished
       \<lparr>status = 201,
        body = VObj
          [(''success'', VBool True),
           (''message'', VStr (js ''Donation registered successfully'')),
           (''data'', VObj
              [(''donor'', VObj [(''fullName'', VStr (js ''Ravi K'')),
                                 (''bloodGroup'', VStr (js ''AB+''))]),
               (''totalUnits'', VNum 5)])]\<rparr>],
    \<lparr>Donor =
       [\<lparr>docId = 7, fullName = js ''Jane Doe'', bloodGroup = js ''O-'', age = 30,
         year = js ''SY'', donatedAt = 1000\<rparr>,
        \<lparr>docId = 8, fullName = js ''Ravi K'', bloodGroup = js ''AB+'', age = 21,
         year = js ''Final Year'', donatedAt = 1001\<rparr>],
     Stats = [\<lparr>identifier = global, totalBloodUnits = 6, lastUpdated = 1003\<rparr>]\<rparr>) \<and>
   totalUnits
     \<lparr>Donor =
       [\<lparr>docId = 7, fullName = js ''Jane Doe'', bloodGroup = js ''O-'', age = 30,
         year = js ''SY'', donatedAt = 1000\<rparr>,
        \<lparr>docId = 8, fullName = js ''Ravi K'', bloodGroup = js ''AB+'', age = 21,
         year = js ''Final Year'', donatedAt = 1001\<rparr>],
      Stats = [\<lparr>identifier = global, totalBloodUnits = 6, lastUpdated = 1003\<rparr>]\<rparr> =
   totalUnits
     \<lparr>Donor = [], Stats = [\<lparr>identifier = global, totalBloodUnits = 4, lastUpdated = 900\<rparr>]\<rparr> + 2"
proof -
  let ?b1 = "\<lparr>submission.fullName = JStr (js ''Jane Doe''), bloodGroup = JStr (js ''O-''),
      age = JNum (js ''30''), year = JStr (js ''SY'')\<rparr>"
  let ?b2 = "\<lparr>submission.fullName = JStr (js ''Ravi K''), bloodGroup = JStr (js ''AB+''),
      age = JNum (js ''21''), year = JStr (js ''Final Year'')\<rparr>"
  let ?sch = "[(0, \<lparr>up = True, now = 1000, oid = 7, ties = []\<rparr>), (1, \<lparr>up = True, now = 1001, oid = 8, ties = []\<rparr>),
        (1, \<lparr>up = True, now = 1002, oid = 9, ties = []\<rparr>), (0::nat, \<lparr>up = True, now = 1003, oid = 10, ties = []\<rparr>)]"
  let ?s = "\<lparr>Donor = [], Stats = [\<lparr>identifier = global, totalBloodUnits = 4, lastUpdated = 900\<rparr>]\<rparr>"
  let ?ts' = "[Finished
       \<lparr>status = 201,
        body = VObj
          [(''success'', VBool True),
           (''message'', VStr (js ''Donation registered successfully'')),
           (''data'', VObj
              [(''donor'', VObj [(''fullName'', VStr (js ''Jane Doe'')),
                                 (''bloodGroup'', VStr (js ''O-''))]),
               (''totalUnits'', VNum 6)])]\<rparr>,
     Finished
       \<lparr>status = 201,
        body = VObj
          [(''success'', VBool True),
           (''message'', VStr (js ''Donation registered successfully'')),
           (''data'', VObj
              [(''donor'', VObj [(''fullName'', VStr (js ''Ravi K'')),
                                 (''bloodGroup'', VStr (js ''AB+''))]),
               (''totalUnits'', VNum 5)])]\<rparr>]"
  let ?s' = "\<lparr>Donor =
       [\<lparr>docId = 7, fullName = js ''Jane Doe'', bloodGroup = js ''O-'', age = 30,
         year = js ''SY'', donatedAt = 1000\<rparr>,
        \<lparr>docId = 8, fullName = js ''Ravi K'', bloodGroup = js ''AB+'', age = 21,
         year = js ''Final Year'', donatedAt = 1001\<rparr>],
     Stats = [\<lparr>identifier = global, totalBloodUnits = 6, lastUpdated = 1003\<rparr>]\<rparr>"
  have d30: "js ''30'' = decimal 30" and d21: "js ''21'' = decimal 21"
    by (simp_all add: decimal_def decimalNat.simps js_def digitChar_def)
  have "\<exists>n \<in> {18..65}. js ''30'' = decimal n"
    using d30 by (intro bexI [of _ 30]) simp_all
  then have v1: "validSubmission ?b1"
    by (simp add: validSubmission_def validBloodGroups_def validYears_def)
      (simp add: string_eval)
  have "\<exists>n \<in> {18..65}. js ''21'' = decimal n"
    using d21 by (intro bexI [of _ 21]) simp_all
  then have v2: "validSubmission ?b2"
    by (simp add: validSubmission_def validBloodGroups_def validYears_def)
      (simp add: string_eval)
  have rn: "run ?sch ([Start (Donate ?b1), Start (Donate ?b2)], ?s) = (?ts', ?s')"
    by (simp add: string_eval donor_eval stats_eval route_eval)
  have fin: "\<forall>t \<in> set ?ts'. finished t"
    by simp
  have "\<forall>b \<in> set [?b1, ?b2]. validSubmission b"
    using v1 v2 by simp
  moreover have "\<forall>x \<in> set ?sch. up (snd x)"
    by simp
  moreover have "run ?sch (map (\<lambda>b. Start (Donate b)) [?b1, ?b2], ?s) = (?ts', ?s')"
    using rn by simp
  ultimately have "totalUnits ?s' = totalUnits ?s + int (length [?b1, ?b2])"
    using concurrent_registrations [of "[?b1, ?b2]" ?sch ?s ?ts' ?s'] fin by blast
  then show ?thesis
    using v1 v2 rn by simp
qed

section \<open>Reconciliation\<close>

text \<open>
  Claim C4. Whatever the collections hold (for instance a donor whose increment was
  dropped), \<open>POST /api/sync-stats\<close> with the store answering sets the counter of the
  singleton to the exact number of Donor documents and its \<open>lastUpdated\<close> to the time
  of the update, leaves the donors as they are, and answers 200 with that number (under
  the key \<open>totalBloodUnits\<close>).
\<close>

theorem sync_stats_reconciles:
  assumes "up io1" and "up io2"
  shows "fst (sync_stats io1 io2 s) =
           \<lparr>status = 200,
            body = VObj
              [(''success'', VBool True),
               (''message'',
                VStr (js ''Stats synced. Total donors: '' @ decimal (int (length (Donor s))))),
               (''data'', VObj [(''totalBloodUnits'', VNum (int (length (Donor s))))])]\<rparr> \<and>
         Donor (snd (sync_stats io1 io2 s)) = Donor s \<and>
         find (\<lambda>d. identifier d = global) (Stats (snd (sync_stats io1 io2 s))) =
           Some \<lparr>identifier = global, totalBloodUnits = int (length (Donor s)),
                 lastUpdated = now io2\<rparr> \<and>
         totalUnits (snd (sync_stats io1 io2 s)) = int (length (Donor s))"
proof -
  let ?n = "int (length (Donor s))"
  let ?f = "\<lambda>d. d\<lparr>totalBloodUnits := ?n, lastUpdated := now io2\<rparr>"
  obtain st s' where upd: "findOneAndUpdate global ?f io2 s = Inr (st, s')"
    and don: "Donor s' = Donor s"
    and fnd: "find (\<lambda>d. identifier d = global) (Stats s') = Some st"
    and st: "st = ?f (case find (\<lambda>d. identifier d = global) (Stats s) of
                     Some d \<Rightarrow> d
                   | None \<Rightarrow> \<lparr>identifier = global, totalBloodUnits = 0, lastUpdated = now io2\<rparr>)"
    using findOneAndUpdate_sets [of io2 ?f s] assms(2) by auto
  have "identifier st = global"
    using fnd by (rule find_Some_holds)
  moreover have "totalBloodUnits st = ?n" and "lastUpdated st = now io2"
    by (simp_all add: st)
  ultimately have st_eq: "st = \<lparr>identifier = global, totalBloodUnits = ?n, lastUpdated = now io2\<rparr>"
    by (cases st) simp
  have run: "sync_stats io1 io2 s =
      (\<lparr>status = 200,
        body = VObj
          [(''success'', VBool True),
           (''message'', VStr (js ''Stats synced. Total donors: '' @ decimal ?n)),
           (''data'', VObj [(''totalBloodUnits'', VNum ?n)])]\<rparr>, s')"
    using assms(1) upd by (simp add: sync_stats_def sync_count_def countDocuments_def sync_update_def)
  show ?thesis
    using don fnd by (simp add: run st_eq totalUnits_def)
qed

theorem sync_stats_reconciles_witness:
  "up \<lparr>up = True, now = 2000, oid = 8, ties = []\<rparr> \<and>
   sync_stats \<lparr>up = True, now = 2000, oid = 8, ties = []\<rparr> \<lparr>up = True, now = 2000, oid = 8, ties = []\<rparr>
     \<lparr>Donor = [\<lparr>docId = 7, fullName = js ''Jane Doe'', bloodGroup = js ''O-'', age = 30,
                 year = js ''SY'', donatedAt = 1000\<rparr>],
      Stats = [\<lparr>identifier = global, totalBloodUnits = 0, lastUpdated = 500\<rparr>]\<rparr> =
   (\<lparr>status = 200,
     body = VObj
       [(''success'', VBool True),
        (''message'', VStr (js ''Stats synced. Total donors: 1'')),
        (''data'', VObj [(''totalBloodUnits'', VNum 1)])]\<rparr>,
    \<lparr>Donor = [\<lparr>docId = 7, fullName = js ''Jane Doe'', bloodGroup = js ''O-'', age = 30,
                 year = js ''SY'', donatedAt = 1000\<rparr>],
      Stats = [\<lparr>identifier = global, totalBloodUnits = 1, lastUpdated = 2000\<rparr>]\<rparr>)"
  using sync_stats_reconciles [of "\<lparr>up = True, now = 2000, oid = 8, ties = []\<rparr>" "\<lparr>up = True, now = 2000, oid = 8, ties = []\<rparr>"
     "\<lparr>Donor = [\<lparr>docId = 7, fullName = js ''Jane Doe'', bloodGroup = js ''O-'', age = 30,
                 year = js ''SY'', donatedAt = 1000\<rparr>],
      Stats = [\<lparr>identifier = global, totalBloodUnits = 0, lastUpdated = 500\<rparr>]\<rparr>"]
  by (simp add: sync_stats_def sync_count_def countDocuments_def sync_update_def findOneAndUpdate_def
      decimal_def decimalNat.simps js_def digitChar_def)

section \<open>A registration that fails half way\<close>

text \<open>
  Claim C5. When the donor document has been saved and the increment that follows fails,
  the handler answers 500, the document stays in the store as it was written (nothing is
  rolled back) and
  the counter is as it was, one short of the donors added. When the handler does not get
  as far as a saved document (its own checks, the schema's validation or the store turn
  the submission down), it answers 400 or 500, the store is unchanged and no increment is
  made.
\<close>

theorem post_donate_partial_failure:
  "(donate_save b io1 s = (Inr d, s1) \<and> incrementCount 1 io2 s1 = Inl e \<longrightarrow>
      post_donate b io1 io2 s = (failure 500 ''Server error. Please try again later.'', s1) \<and>
      Donor s1 = Donor s @ [toBSON d] \<and> Stats s1 = Stats s \<and> totalUnits s1 = totalUnits s) \<and>
   (donate_save b io1 s = (Inl r, s1) \<longrightarrow>
      post_donate b io1 io2 s = (r, s) \<and> s1 = s \<and> (status r = 400 \<or> status r = 500))"
proof (intro conjI impI)
  assume a: "donate_save b io1 s = (Inr d, s1) \<and> incrementCount 1 io2 s1 = Inl e"
  then have s1: "s1 = s\<lparr>Donor := Donor s @ [toBSON d]\<rparr>"
    using donate_save_Inr [of b io1 s d s1] by auto
  have "e = MongoError"
    using a by (auto simp: incrementCount_def findOneAndUpdate_def Let_def split: if_splits option.splits)
  then show "post_donate b io1 io2 s =
      (failure 500 ''Server error. Please try again later.'', s1)"
    using a by (simp add: post_donate_def donate_increment_def)
  show "Donor s1 = Donor s @ [toBSON d]" "Stats s1 = Stats s" "totalUnits s1 = totalUnits s"
    by (simp_all add: s1 totalUnits_def)
next
  assume a: "donate_save b io1 s = (Inl r, s1)"
  then show "post_donate b io1 io2 s = (r, s)" "s1 = s" "status r = 400 \<or> status r = 500"
    using donate_save_Inl [OF a] by (simp_all add: post_donate_def)
qed

theorem post_donate_partial_failure_witness:
  "donate_save
     \<lparr>submission.fullName = JStr (js ''Jane Doe''), bloodGroup = JStr (js ''O-''),
      age = JNum (js ''30''), year = JStr (js ''SY'')\<rparr>
     \<lparr>up = True, now = 1000, oid = 7, ties = []\<rparr>
     \<lparr>Donor = [], Stats = [\<lparr>identifier = global, totalBloodUnits = 0, lastUpdated = 900\<rparr>]\<rparr> =
   (Inr \<lparr>docId = 7, fullName = js ''Jane Doe'', bloodGroup = js ''O-'', age = 30,
         year = js ''SY'', donatedAt = 1000\<rparr>,
    \<lparr>Donor = [\<lparr>docId = 7, fullName = js ''Jane Doe'', bloodGroup = js ''O-'', age = 30,
                year = js ''SY'', donatedAt = 1000\<rparr>],
     Stats = [\<lparr>identifier = global, totalBloodUnits = 0, lastUpdated = 900\<rparr>]\<rparr>) \<and>
   incrementCount 1 \<lparr>up = False, now = 1001, oid = 8, ties = []\<rparr>
     \<lparr>Donor = [\<lparr>docId = 7, fullName = js ''Jane Doe'', bloodGroup = js ''O-'', age = 30,
                year = js ''SY'', donatedAt = 1000\<rparr>],
      Stats = [\<lparr>identifier = global, totalBloodUnits = 0, lastUpdated = 900\<rparr>]\<rparr> =
   Inl MongoError \<and>
   post_donate
     \<lparr>submission.fullName = JStr (js ''Jane Doe''), bloodGroup = JStr (js ''O-''),
      age = JNum (js ''30''), year = JStr (js ''SY'')\<rparr>
     \<lparr>up = True, now = 1000, oid = 7, ties = []\<rparr> \<lparr>up = False, now = 1001, oid = 8, ties = []\<rparr>
     \<lparr>Donor = [], Stats = [\<lparr>identifier = global, totalBloodUnits = 0, lastUpdated = 900\<rparr>]\<rparr> =
   (failure 500 ''Server error. Please try again later.'',
    \<lparr>Donor = [\<lparr>docId = 7, fullName = js ''Jane Doe'', bloodGroup = js ''O-'', age = 30,
                year = js ''SY'', donatedAt = 1000\<rparr>],
     Stats = [\<lparr>identifier = global, totalBloodUnits = 0, lastUpdated = 900\<rparr>]\<rparr>) \<and>
   donate_save
     \<lparr>submission.fullName = JStr (js ''Jane Doe''), bloodGroup = JStr (js ''O-''),
      age = JNum (js ''30''), year = JStr (js ''SY'')\<rparr>
     \<lparr>up = False, now = 1000, oid = 7, ties = []\<rparr>
     \<lparr>Donor = [], Stats = [\<lparr>identifier = global, totalBloodUnits = 0, lastUpdated = 900\<rparr>]\<rparr> =
   (Inl (failure 500 ''Server error. Please try again later.''),
    \<lparr>Donor = [], Stats = [\<lparr>identifier = global, totalBloodUnits = 0, lastUpdated = 900\<rparr>]\<rparr>) \<and>
   post_donate
     \<lparr>submission.fullName = JStr (js ''Jane Doe''), bloodGroup = JStr (js ''O-''),
      age = JNum (js ''30''), year = JStr (js ''SY'')\<rparr>
     \<lparr>up = False, now = 1000, oid = 7, ties = []\<rparr> \<lparr>up = True, now = 1001, oid = 8, ties = []\<rparr>
     \<lparr>Donor = [], Stats = [\<lparr>identifier = global, totalBloodUnits = 0, lastUpdated = 900\<rparr>]\<rparr> =
   (failure 500 ''Server error. Please try again later.'',
    \<lparr>Donor = [], Stats = [\<lparr>identifier = global, totalBloodUnits = 0, lastUpdated = 900\<rparr>]\<rparr>)"
proof -
  let ?b = "\<lparr>submission.fullName = JStr (js ''Jane Doe''), bloodGroup = JStr (js ''O-''),
      age = JNum (js ''30''), year = JStr (js ''SY'')\<rparr>"
  let ?s = "\<lparr>Donor = [], Stats = [\<lparr>identifier = global, totalBloodUnits = 0, lastUpdated = 900\<rparr>]\<rparr>"
  let ?d = "\<lparr>docId = 7, fullName = js ''Jane Doe'', bloodGroup = js ''O-'', age = 30,
         year = js ''SY'', donatedAt = 1000\<rparr>"
  let ?s1 = "\<lparr>Donor = [?d], Stats = [\<lparr>identifier = global, totalBloodUnits = 0, lastUpdated = 900\<rparr>]\<rparr>"
  have p: "parseInt (JNum (js ''30'')) = Some 30"
    by (simp add: parseInt_def js_def parseIntString_def trimStart_def stripSign_def
        stripPrefix_def isRadixDigit_def digitValue_def radixValue_def isWhiteSpace_def)
  have t: "trim (js ''Jane Doe'') = js ''Jane Doe''"
    by (simp add: js_def trim_def trimStart_def trimEnd_def isWhiteSpace_def)
  have v: "validateDonor (newDonor (js ''Jane Doe'') (js ''O-'') 30 (js ''SY'') io) = []" for io
    by (simp add: validateDonor_def validate_fullName_def validate_bloodGroup_def
        validate_age_def validate_year_def newDonor_def t validBloodGroups_def validYears_def)
      (simp add: js_def)
  have c: "truthy (submission.fullName ?b)" "truthy (submission.bloodGroup ?b)"
      "truthy (submission.age ?b)" "truthy (submission.year ?b)"
      "array_includes validBloodGroups (submission.bloodGroup ?b)"
      "array_includes validYears (submission.year ?b)"
    by (simp_all add: validBloodGroups_def validYears_def) (simp_all add: js_def)
  have w: "toBSON ?d = ?d"
    by (simp add: toBSON_def js_def isHighSurrogate_def isLowSurrogate_def)
  have sv: "donate_save ?b \<lparr>up = True, now = 1000, oid = 7, ties = []\<rparr> ?s = (Inr ?d, ?s1)"
    using c v [of "\<lparr>up = True, now = 1000, oid = 7, ties = []\<rparr>"] w
    by (simp add: donate_save_def p t Let_def save_def) (simp add: newDonor_def t)
  have sv': "donate_save ?b \<lparr>up = False, now = 1000, oid = 7, ties = []\<rparr> ?s =
      (Inl (failure 500 ''Server error. Please try again later.''), ?s)"
    using c v [of "\<lparr>up = False, now = 1000, oid = 7, ties = []\<rparr>"]
    by (simp add: donate_save_def p t Let_def save_def)
  have inc: "incrementCount 1 \<lparr>up = False, now = 1001, oid = 8, ties = []\<rparr> ?s1 = Inl MongoError"
    by (simp add: incrementCount_def findOneAndUpdate_def)
  show ?thesis
    using sv sv' inc
      post_donate_partial_failure [of ?b "\<lparr>up = True, now = 1000, oid = 7, ties = []\<rparr>" ?s ?d ?s1
        "\<lparr>up = False, now = 1001, oid = 8, ties = []\<rparr>" MongoError]
      post_donate_partial_failure [where b = ?b and ?io1.0 = "\<lparr>up = False, now = 1000, oid = 7, ties = []\<rparr>"
        and s = ?s and r = "failure 500 ''Server error. Please try again later.''" and ?s1.0 = ?s
        and ?io2.0 = "\<lparr>up = True, now = 1001, oid = 8, ties = []\<rparr>"]
    by (simp add: w)
qed

section \<open>The singleton\<close>

text \<open>
  Claim C6. \<open>getStats\<close> creates the \<open>global\<close> document with \<open>totalBloodUnits = 0\<close>
  when none exists, and a store that has answered \<open>getStats\<close> (as a whole, or as the
  last step of a \<open>GET /api/stats\<close> that ends with 200) holds one. Under every schedule of
  any requests, two concurrent readers included, a store with at most one singleton keeps
  at most one, since the unique index refuses the second \<open>create\<close>, and a store with
  a singleton keeps it. So from the first access on there is exactly one.
\<close>

theorem stats_singleton:
  "(singletons s = [] \<and> up io1 \<and> up io2 \<longrightarrow>
      getStats io1 io2 s =
        Inr (\<lparr>identifier = global, totalBloodUnits = 0, lastUpdated = now io2\<rparr>,
             s\<lparr>Stats := Stats s @
               [\<lparr>identifier = global, totalBloodUnits = 0, lastUpdated = now io2\<rparr>]\<rparr>)) \<and>
   (getStats io1 io2 s = Inr (st, s1) \<longrightarrow> singletons s1 \<noteq> []) \<and>
   (step io t s = (Finished r, s1) \<and> (t = Start GetStats \<or> t = AwaitCreate) \<and> status r = 200 \<longrightarrow>
      singletons s1 \<noteq> []) \<and>
   (run sch (ts, s) = (ts', s2) \<and> length (singletons s) \<le> 1 \<longrightarrow> length (singletons s2) \<le> 1) \<and>
   (run sch (ts, s) = (ts', s2) \<and> singletons s \<noteq> [] \<longrightarrow> singletons s2 \<noteq> [])"
proof (intro conjI impI)
  assume a: "singletons s = [] \<and> up io1 \<and> up io2"
  then have none: "find (\<lambda>d. identifier d = global) (Stats s) = None"
    by (simp add: find_singletons_None)
  then have "global \<notin> set (map identifier (Stats s))"
    by (rule find_None_fresh)
  with a none show "getStats io1 io2 s =
        Inr (\<lparr>identifier = global, totalBloodUnits = 0, lastUpdated = now io2\<rparr>,
             s\<lparr>Stats := Stats s @
               [\<lparr>identifier = global, totalBloodUnits = 0, lastUpdated = now io2\<rparr>]\<rparr>)"
    by (simp add: getStats_def findOne_def create_def)
next
  assume a: "getStats io1 io2 s = Inr (st, s1)"
  show "singletons s1 \<noteq> []"
  proof (cases "find (\<lambda>d. identifier d = global) (Stats s)")
    case None
    with a have "create \<lparr>identifier = global, totalBloodUnits = 0, lastUpdated = now io2\<rparr> io2 s =
        Inr (st, s1)"
      by (auto simp: getStats_def findOne_def split: if_splits)
    from create_Inr [OF this] show ?thesis
      by (simp add: singletons_def)
  next
    case (Some d)
    with a have "s1 = s"
      by (auto simp: getStats_def findOne_def split: if_splits)
    with Some show ?thesis
      by (simp add: singletons_def find_None_filter [symmetric])
  qed
next
  assume a: "step io t s = (Finished r, s1) \<and> (t = Start GetStats \<or> t = AwaitCreate) \<and> status r = 200"
  then consider "t = Start GetStats" | "t = AwaitCreate" by blast
  then show "singletons s1 \<noteq> []"
  proof cases
    case 1
    obtain x s' where x: "stats_find io s = (x, s')" by (cases "stats_find io s")
    with a 1 have "x = Inl r" and "s1 = s'"
      by (auto split: sum.splits)
    with a stats_find_effect [OF x] show ?thesis by auto
  next
    case 2
    obtain r' s' where x: "stats_create io s = (r', s')" by (cases "stats_create io s")
    with a 2 have "r' = r" and "s1 = s'" by auto
    with a stats_create_effect [OF x] show ?thesis by auto
  qed
next
  assume a: "run sch (ts, s) = (ts', s2) \<and> length (singletons s) \<le> 1"
  then show "length (singletons s2) \<le> 1"
    using run_at_most_one by blast
next
  assume a: "run sch (ts, s) = (ts', s2) \<and> singletons s \<noteq> []"
  then show "singletons s2 \<noteq> []"
    using run_stays by blast
qed

theorem stats_singleton_witness:
  "singletons \<lparr>Donor = [], Stats = []\<rparr> = [] \<and>
   up \<lparr>up = True, now = 1000, oid = 7, ties = []\<rparr> \<and>
   getStats \<lparr>up = True, now = 1000, oid = 7, ties = []\<rparr> \<lparr>up = True, now = 1000, oid = 7, ties = []\<rparr>
     \<lparr>Donor = [], Stats = []\<rparr> =
     Inr (\<lparr>identifier = global, totalBloodUnits = 0, lastUpdated = 1000\<rparr>,
          \<lparr>Donor = [],
           Stats = [\<lparr>identifier = global, totalBloodUnits = 0, lastUpdated = 1000\<rparr>]\<rparr>) \<and>
   step \<lparr>up = True, now = 1000, oid = 7, ties = []\<rparr> AwaitCreate \<lparr>Donor = [], Stats = []\<rparr> =
     (Finished
        \<lparr>status = 200,
         body = VObj
           [(''success'', VBool True),
            (''data'', VObj [(''totalBloodUnits'', VNum 0), (''lastUpdated'', VDate 1000)])]\<rparr>,
      \<lparr>Donor = [],
       Stats = [\<lparr>identifier = global, totalBloodUnits = 0, lastUpdated = 1000\<rparr>]\<rparr>) \<and>
   singletons
     \<lparr>Donor = [],
      Stats = [\<lparr>identifier = global, totalBloodUnits = 0, lastUpdated = 1000\<rparr>]\<rparr> \<noteq> [] \<and>
   run [(0, \<lparr>up = True, now = 1000, oid = 7, ties = []\<rparr>), (1, \<lparr>up = True, now = 1001, oid = 8, ties = []\<rparr>),
        (0, \<lparr>up = True, now = 1002, oid = 9, ties = []\<rparr>), (1, \<lparr>up = True, now = 1003, oid = 10, ties = []\<rparr>)]
     ([Start GetStats, Start GetStats], \<lparr>Donor = [], Stats = []\<rparr>) =
     ([Finished
         \<lparr>status = 200,
          body = VObj
            [(''success'', VBool True),
             (''data'', VObj [(''totalBloodUnits'', VNum 0), (''lastUpdated'', VDate 1002)])]\<rparr>,
       Finished (failure 500 ''Error fetching statistics'')],
      \<lparr>Donor = [],
       Stats = [\<lparr>identifier = global, totalBloodUnits = 0, lastUpdated = 1002\<rparr>]\<rparr>) \<and>
   length (singletons \<lparr>Donor = [], Stats = []\<rparr>) \<le> 1 \<and>
   length (singletons
     \<lparr>Donor = [],
      Stats = [\<lparr>identifier = global, totalBloodUnits = 0, lastUpdated = 1002\<rparr>]\<rparr>) \<le> 1 \<and>
   singletons
     \<lparr>Donor = [],
      Stats = [\<lparr>identifier = global, totalBloodUnits = 0, lastUpdated = 1002\<rparr>]\<rparr> \<noteq> [] \<and>
   run [(0, \<lparr>up = True, now = 1004, oid = 11, ties = []\<rparr>), (0, \<lparr>up = True, now = 1005, oid = 12, ties = []\<rparr>)]
     ([Start SyncStats],
      \<lparr>Donor = [],
       Stats = [\<lparr>identifier = global, totalBloodUnits = 0, lastUpdated = 1002\<rparr>]\<rparr>) =
     ([Finished
         \<lparr>status = 200,
          body = VObj
            [(''success'', VBool True),
             (''message'', VStr (js ''Stats synced. Total donors: 0'')),
             (''data'', VObj [(''totalBloodUnits'', VNum 0)])]\<rparr>],
      \<lparr>Donor = [],
       Stats = [\<lparr>identifier = global, totalBloodUnits = 0, lastUpdated = 1005\<rparr>]\<rparr>) \<and>
   singletons
     \<lparr>Donor = [],
      Stats = [\<lparr>identifier = global, totalBloodUnits = 0, lastUpdated = 1005\<rparr>]\<rparr> \<noteq> []"
proof -
  let ?io = "\<lparr>up = True, now = 1000, oid = 7, ties = []\<rparr>"
  let ?s = "\<lparr>Donor = [], Stats = []\<rparr>"
  let ?st = "\<lparr>identifier = global, totalBloodUnits = 0, lastUpdated = 1000\<rparr>"
  let ?s1 = "\<lparr>Donor = [], Stats = [?st]\<rparr>"
  let ?r = "\<lparr>status = 200,
         body = VObj
           [(''success'', VBool True),
            (''data'', VObj [(''totalBloodUnits'', VNum 0), (''lastUpdated'', VDate 1000)])]\<rparr>"
  let ?sch = "[(0, \<lparr>up = True, now = 1000, oid = 7, ties = []\<rparr>), (1, \<lparr>up = True, now = 1001, oid = 8, ties = []\<rparr>),
        (0, \<lparr>up = True, now = 1002, oid = 9, ties = []\<rparr>), (1::nat, \<lparr>up = True, now = 1003, oid = 10, ties = []\<rparr>)]"
  let ?ts' = "[Finished
         \<lparr>status = 200,
          body = VObj
            [(''success'', VBool True),
             (''data'', VObj [(''totalBloodUnits'', VNum 0), (''lastUpdated'', VDate 1002)])]\<rparr>,
       Finished (failure 500 ''Error fetching statistics'')]"
  let ?s2 = "\<lparr>Donor = [],
       Stats = [\<lparr>identifier = global, totalBloodUnits = 0, lastUpdated = 1002\<rparr>]\<rparr>"
  let ?sch3 = "[(0, \<lparr>up = True, now = 1004, oid = 11, ties = []\<rparr>), (0::nat, \<lparr>up = True, now = 1005, oid = 12, ties = []\<rparr>)]"
  let ?ts3 = "[Finished
         \<lparr>status = 200,
          body = VObj
            [(''success'', VBool True),
             (''message'', VStr (js ''Stats synced. Total donors: 0'')),
             (''data'', VObj [(''totalBloodUnits'', VNum 0)])]\<rparr>]"
  let ?s3 = "\<lparr>Donor = [],
       Stats = [\<lparr>identifier = global, totalBloodUnits = 0, lastUpdated = 1005\<rparr>]\<rparr>"
  have h: "singletons ?s = []" "length (singletons ?s) \<le> 1"
    by (simp_all add: singletons_def)
  have st: "step ?io AwaitCreate ?s = (Finished ?r, ?s1)"
    by (simp add: stats_create_def create_def stats_response_def)
  have r: "run ?sch ([Start GetStats, Start GetStats], ?s) = (?ts', ?s2)"
    by (simp add: stats_find_def stats_create_def findOne_def create_def stats_response_def)
  have r3: "run ?sch3 ([Start SyncStats], ?s2) = (?ts3, ?s3)"
    by (simp add: sync_count_def sync_update_def countDocuments_def findOneAndUpdate_def
        decimal_def decimalNat.simps js_def digitChar_def)
  have h2: "singletons ?s2 \<noteq> []"
    by (simp add: singletons_def)
  show ?thesis
    using h h2 st r r3
      stats_singleton [where s = ?s and ?io1.0 = ?io and ?io2.0 = ?io and st = ?st and ?s1.0 = ?s1
        and io = ?io and t = AwaitCreate and r = ?r and sch = ?sch
        and ts = "[Start GetStats, Start GetStats]" and ts' = ?ts' and ?s2.0 = ?s2]
      stats_singleton [where s = ?s2 and sch = ?sch3 and ts = "[Start SyncStats]" and ts' = ?ts3
        and ?s2.0 = ?s3]
    by simp
qed

section \<open>Reading the counter\<close>

text \<open>
  Claim C7, as amended. With the store answering, \<open>GET /api/stats\<close> answers 200 with
  \<open>{success: true, data: {totalBloodUnits, lastUpdated}}\<close>, the two fields of the
  document that \<open>getStats\<close> returns: the counter goes out under the name
  \<open>totalBloodUnits\<close>.
\<close>

theorem get_stats_passthrough:
  assumes "up io1" and "up io2"
  shows "\<exists>st s'. getStats io1 io2 s = Inr (st, s') \<and>
           get_stats io1 io2 s =
             (\<lparr>status = 200,
               body = VObj
                 [(''success'', VBool True),
                  (''data'', VObj [(''totalBloodUnits'', VNum (totalBloodUnits st)),
                                   (''lastUpdated'', VDate (lastUpdated st))])]\<rparr>, s')"
proof (cases "find (\<lambda>d. identifier d = global) (Stats s)")
  case None
  then have "global \<notin> set (map identifier (Stats s))"
    by (rule find_None_fresh)
  then show ?thesis
    using assms None
    by (simp add: get_stats_def getStats_def findOne_def create_def stats_response_def)
next
  case (Some d)
  then show ?thesis
    using assms by (simp add: get_stats_def getStats_def findOne_def stats_response_def)
qed

theorem get_stats_passthrough_witness:
  "up \<lparr>up = True, now = 2000, oid = 8, ties = []\<rparr> \<and>
   getStats \<lparr>up = True, now = 2000, oid = 8, ties = []\<rparr> \<lparr>up = True, now = 2000, oid = 8, ties = []\<rparr>
     \<lparr>Donor = [], Stats = [\<lparr>identifier = global, totalBloodUnits = 5, lastUpdated = 1000\<rparr>]\<rparr> =
     Inr (\<lparr>identifier = global, totalBloodUnits = 5, lastUpdated = 1000\<rparr>,
          \<lparr>Donor = [], Stats = [\<lparr>identifier = global, totalBloodUnits = 5, lastUpdated = 1000\<rparr>]\<rparr>) \<and>
   get_stats \<lparr>up = True, now = 2000, oid = 8, ties = []\<rparr> \<lparr>up = True, now = 2000, oid = 8, ties = []\<rparr>
     \<lparr>Donor = [], Stats = [\<lparr>identifier = global, totalBloodUnits = 5, lastUpdated = 1000\<rparr>]\<rparr> =
     (\<lparr>status = 200,
       body = VObj
         [(''success'', VBool True),
          (''data'', VObj [(''totalBloodUnits'', VNum 5), (''lastUpdated'', VDate 1000)])]\<rparr>,
      \<lparr>Donor = [], Stats = [\<lparr>identifier = global, totalBloodUnits = 5, lastUpdated = 1000\<rparr>]\<rparr>)"
  using get_stats_passthrough [of "\<lparr>up = True, now = 2000, oid = 8, ties = []\<rparr>" "\<lparr>up = True, now = 2000, oid = 8, ties = []\<rparr>"
     "\<lparr>Donor = [], Stats = [\<lparr>identifier = global, totalBloodUnits = 5, lastUpdated = 1000\<rparr>]\<rparr>"]
  by (simp add: get_stats_def getStats_def findOne_def stats_response_def)

text \<open>
  The response to \<open>GET /api/stats\<close> for a counter of 5 has no field \<open>totalUnits\<close>
  in its data.
\<close>

theorem get_stats_field_name_counterexample:
  "get_stats \<lparr>up = True, now = 2000, oid = 8, ties = []\<rparr> \<lparr>up = True, now = 2000, oid = 8, ties = []\<rparr>
     \<lparr>Donor = [], Stats = [\<lparr>identifier = global, totalBloodUnits = 5, lastUpdated = 1000\<rparr>]\<rparr> =
     (\<lparr>status = 200,
       body = VObj
         [(''success'', VBool True),
          (''data'', VObj [(''totalBloodUnits'', VNum 5), (''lastUpdated'', VDate 1000)])]\<rparr>,
      \<lparr>Donor = [], Stats = [\<lparr>identifier = global, totalBloodUnits = 5, lastUpdated = 1000\<rparr>]\<rparr>) \<and>
   field ''totalUnits''
     (VObj [(''totalBloodUnits'', VNum 5), (''lastUpdated'', VDate 1000)]) = None \<and>
   keys (VObj [(''totalBloodUnits'', VNum 5), (''lastUpdated'', VDate 1000)]) \<noteq>
     [''totalUnits'', ''lastUpdated'']"
  by (simp add: get_stats_def getStats_def findOne_def stats_response_def)

section \<open>The recent donors\<close>

text \<open>
  Claim C8, as amended. With the store answering, \<open>GET /api/donors?limit=N\<close> for
  \<open>N \<ge> 1\<close>, or with no limit or the limit 0 and then \<open>N = 10\<close>, answers 200 with the
  first \<open>N\<close> donors (all of them when there are fewer) of the collection ordered by
  \<open>donatedAt\<close> descending; among donors of equal \<open>donatedAt\<close> the order is the store's,
  whatever it is. Each record carries \<open>_id\<close>, \<open>fullName\<close>, \<open>bloodGroup\<close> and
  \<open>donatedAt\<close> and nothing else, so neither \<open>age\<close> nor \<open>year\<close>.
\<close>

theorem get_donors_recent:
  assumes "up io"
    and "(q = JUndefined \<and> N = 10) \<or> (q = JStr (decimal 0) \<and> N = 10) \<or>
         (q = JStr (decimal N) \<and> 1 \<le> N)"
  shows "get_donors q io s =
           (\<lparr>status = 200,
             body = VObj
               [(''success'', VBool True),
                (''data'', VArr
                   (map (\<lambda>d. VObj [(''_id'', VId (docId d)), (''fullName'', VStr (fullName d)),
                                     (''bloodGroup'', VStr (bloodGroup d)),
                                     (''donatedAt'', VDate (donatedAt d))])
                      (take (nat N) (sortRecent io (Donor s)))))]\<rparr>, s) \<and>
         length (take (nat N) (sortRecent io (Donor s))) = min (nat N) (length (Donor s)) \<and>
         mset (sortRecent io (Donor s)) = mset (Donor s) \<and>
         sorted_wrt (\<lambda>a b. donatedAt b \<le> donatedAt a) (sortRecent io (Donor s))"
proof -
  have ql: "query_limit q = N" and pos: "0 \<le> N"
    using assms(2) by (auto simp: query_limit_def parseInt_undefined parseInt_decimal_string)
  have "get_donors q io s =
           (\<lparr>status = 200,
             body = VObj
               [(''success'', VBool True),
                (''data'', VArr
                   (map (\<lambda>d. VObj [(''_id'', VId (docId d)), (''fullName'', VStr (fullName d)),
                                     (''bloodGroup'', VStr (bloodGroup d)),
                                     (''donatedAt'', VDate (donatedAt d))])
                      (take (nat N) (sortRecent io (Donor s)))))]\<rparr>, s)"
    using assms(1) pos by (simp add: get_donors_def ql findRecent_def limit_def select_public)
  moreover have "length (take (nat N) (sortRecent io (Donor s))) = min (nat N) (length (Donor s))"
    by (simp add: length_sortRecent min.commute)
  ultimately show ?thesis
    using mset_sortRecent sortRecent_sorted by blast
qed

theorem get_donors_recent_witness:
  "up \<lparr>up = True, now = 5000, oid = 9, ties = []\<rparr> \<and>
   JStr (js ''2'') = JStr (decimal 2) \<and> (1::int) \<le> 2 \<and>
   get_donors (JStr (js ''2'')) \<lparr>up = True, now = 5000, oid = 9, ties = []\<rparr>
     \<lparr>Donor =
        [\<lparr>docId = 11, fullName = js ''Ann'', bloodGroup = js ''A+'', age = 20, year = js ''FY'',
          donatedAt = 1000\<rparr>,
         \<lparr>docId = 12, fullName = js ''Bob'', bloodGroup = js ''B+'', age = 21, year = js ''SY'',
          donatedAt = 2000\<rparr>,
         \<lparr>docId = 13, fullName = js ''Cid'', bloodGroup = js ''O-'', age = 22, year = js ''TY'',
          donatedAt = 3000\<rparr>],
      Stats = []\<rparr> =
   (\<lparr>status = 200,
     body = VObj
       [(''success'', VBool True),
        (''data'', VArr
           [VObj [(''_id'', VId 13), (''fullName'', VStr (js ''Cid'')),
                  (''bloodGroup'', VStr (js ''O-'')), (''donatedAt'', VDate 3000)],
            VObj [(''_id'', VId 12), (''fullName'', VStr (js ''Bob'')),
                  (''bloodGroup'', VStr (js ''B+'')), (''donatedAt'', VDate 2000)]])]\<rparr>,
    \<lparr>Donor =
        [\<lparr>docId = 11, fullName = js ''Ann'', bloodGroup = js ''A+'', age = 20, year = js ''FY'',
          donatedAt = 1000\<rparr>,
         \<lparr>docId = 12, fullName = js ''Bob'', bloodGroup = js ''B+'', age = 21, year = js ''SY'',
          donatedAt = 2000\<rparr>,
         \<lparr>docId = 13, fullName = js ''Cid'', bloodGroup = js ''O-'', age = 22, year = js ''TY'',
          donatedAt = 3000\<rparr>],
      Stats = []\<rparr>) \<and>
   get_donors JUndefined \<lparr>up = True, now = 5000, oid = 9, ties = []\<rparr>
     \<lparr>Donor =
        [\<lparr>docId = 11, fullName = js ''Ann'', bloodGroup = js ''A+'', age = 20, year = js ''FY'',
          donatedAt = 1000\<rparr>,
         \<lparr>docId = 12, fullName = js ''Bob'', bloodGroup = js ''B+'', age = 21, year = js ''SY'',
          donatedAt = 2000\<rparr>,
         \<lparr>docId = 13, fullName = js ''Cid'', bloodGroup = js ''O-'', age = 22, year = js ''TY'',
          donatedAt = 3000\<rparr>],
      Stats = []\<rparr> =
   (\<lparr>status = 200,
     body = VObj
       [(''success'', VBool True),
        (''data'', VArr
           [VObj [(''_id'', VId 13), (''fullName'', VStr (js ''Cid'')),
                  (''bloodGroup'', VStr (js ''O-'')), (''donatedAt'', VDate 3000)],
            VObj [(''_id'', VId 12), (''fullName'', VStr (js ''Bob'')),
                  (''bloodGroup'', VStr (js ''B+'')), (''donatedAt'', VDate 2000)],
            VObj [(''_id'', VId 11), (''fullName'', VStr (js ''Ann'')),
                  (''bloodGroup'', VStr (js ''A+'')), (''donatedAt'', VDate 1000)]])]\<rparr>,
    \<lparr>Donor =
        [\<lparr>docId = 11, fullName = js ''Ann'', bloodGroup = js ''A+'', age = 20, year = js ''FY'',
          donatedAt = 1000\<rparr>,
         \<lparr>docId = 12, fullName = js ''Bob'', bloodGroup = js ''B+'', age = 21, year = js ''SY'',
          donatedAt = 2000\<rparr>,
         \<lparr>docId = 13, fullName = js ''Cid'', bloodGroup = js ''O-'', age = 22, year = js ''TY'',
          donatedAt = 3000\<rparr>],
      Stats = []\<rparr>)"
proof -
  let ?io = "\<lparr>up = True, now = 5000, oid = 9, ties = []\<rparr>"
  let ?s = "\<lparr>Donor =
        [\<lparr>docId = 11, fullName = js ''Ann'', bloodGroup = js ''A+'', age = 20, year = js ''FY'',
          donatedAt = 1000\<rparr>,
         \<lparr>docId = 12, fullName = js ''Bob'', bloodGroup = js ''B+'', age = 21, year = js ''SY'',
          donatedAt = 2000\<rparr>,
         \<lparr>docId = 13, fullName = js ''Cid'', bloodGroup = js ''O-'', age = 22, year = js ''TY'',
          donatedAt = 3000\<rparr>],
      Stats = []\<rparr>"
  have d: "js ''2'' = decimal 2"
    by (simp add: decimal_def decimalNat.simps js_def digitChar_def)
  have h: "(JStr (js ''2'') = JUndefined \<and> (2::int) = 10) \<or>
      (JStr (js ''2'') = JStr (decimal 0) \<and> (2::int) = 10) \<or>
      (JStr (js ''2'') = JStr (decimal 2) \<and> (1::int) \<le> 2)"
    using d by simp
  have two: "nat 2 = Suc (Suc 0)"
    by simp
  have ten: "nat 10 = Suc (Suc (Suc (Suc (Suc (Suc (Suc (Suc (Suc (Suc 0)))))))))"
    by simp
  have sorted: "sortRecent ?io
        [\<lparr>docId = 11, fullName = js ''Ann'', bloodGroup = js ''A+'', age = 20, year = js ''FY'',
          donatedAt = 1000\<rparr>,
         \<lparr>docId = 12, fullName = js ''Bob'', bloodGroup = js ''B+'', age = 21, year = js ''SY'',
          donatedAt = 2000\<rparr>,
         \<lparr>docId = 13, fullName = js ''Cid'', bloodGroup = js ''O-'', age = 22, year = js ''TY'',
          donatedAt = 3000\<rparr>] =
        [\<lparr>docId = 13, fullName = js ''Cid'', bloodGroup = js ''O-'', age = 22, year = js ''TY'',
          donatedAt = 3000\<rparr>,
         \<lparr>docId = 12, fullName = js ''Bob'', bloodGroup = js ''B+'', age = 21, year = js ''SY'',
          donatedAt = 2000\<rparr>,
         \<lparr>docId = 11, fullName = js ''Ann'', bloodGroup = js ''A+'', age = 20, year = js ''FY'',
          donatedAt = 1000\<rparr>]"
    by (simp add: sortRecent_def rankOf_def enumerate_eq_zip upt_rec)
  from get_donors_recent [of ?io "JStr (js ''2'')" 2 ?s, OF _ h]
  have "get_donors (JStr (js ''2'')) ?io ?s =
      (\<lparr>status = 200,
        body = VObj
          [(''success'', VBool True),
           (''data'', VArr
              (map (\<lambda>d. VObj [(''_id'', VId (docId d)), (''fullName'', VStr (fullName d)),
                                (''bloodGroup'', VStr (bloodGroup d)),
                                (''donatedAt'', VDate (donatedAt d))])
                 (take (nat 2) (sortRecent ?io (Donor ?s)))))]\<rparr>, ?s)"
    by simp
  moreover
  from get_donors_recent [of ?io JUndefined 10 ?s]
  have "get_donors JUndefined ?io ?s =
      (\<lparr>status = 200,
        body = VObj
          [(''success'', VBool True),
           (''data'', VArr
              (map (\<lambda>d. VObj [(''_id'', VId (docId d)), (''fullName'', VStr (fullName d)),
                                (''bloodGroup'', VStr (bloodGroup d)),
                                (''donatedAt'', VDate (donatedAt d))])
                 (take (nat 10) (sortRecent ?io (Donor ?s)))))]\<rparr>, ?s)"
    by simp
  ultimately show ?thesis
    using d by (simp add: sorted two ten)
qed

text \<open>
  The limit 0 is falsy and falls back to 10: with one donor stored, \<open>limit=0\<close> returns
  that donor, and the record carries \<open>_id\<close> beside the three named fields. And of two
  donors of equal \<open>donatedAt\<close> the one inserted later comes first when the store ranks it
  first.
\<close>

theorem get_donors_zero_limit_counterexample:
  "get_donors (JStr (js ''0'')) \<lparr>up = True, now = 5000, oid = 9, ties = []\<rparr>
     \<lparr>Donor =
        [\<lparr>docId = 11, fullName = js ''Ann'', bloodGroup = js ''A+'', age = 20, year = js ''FY'',
          donatedAt = 1000\<rparr>],
      Stats = []\<rparr> =
   (\<lparr>status = 200,
     body = VObj
       [(''success'', VBool True),
        (''data'', VArr
           [VObj [(''_id'', VId 11), (''fullName'', VStr (js ''Ann'')),
                  (''bloodGroup'', VStr (js ''A+'')), (''donatedAt'', VDate 1000)]])]\<rparr>,
    \<lparr>Donor =
        [\<lparr>docId = 11, fullName = js ''Ann'', bloodGroup = js ''A+'', age = 20, year = js ''FY'',
          donatedAt = 1000\<rparr>],
      Stats = []\<rparr>) \<and>
   \<not> length
       [VObj [(''_id'', VId 11), (''fullName'', VStr (js ''Ann'')),
              (''bloodGroup'', VStr (js ''A+'')), (''donatedAt'', VDate 1000)]] \<le> 0 \<and>
   keys (VObj [(''_id'', VId 11), (''fullName'', VStr (js ''Ann'')),
               (''bloodGroup'', VStr (js ''A+'')), (''donatedAt'', VDate 1000)]) \<noteq>
     [''fullName'', ''bloodGroup'', ''donatedAt''] \<and>
   get_donors (JStr (js ''2'')) \<lparr>up = True, now = 5000, oid = 9, ties = [1, 0]\<rparr>
     \<lparr>Donor =
        [\<lparr>docId = 12, fullName = js ''Bob'', bloodGroup = js ''B+'', age = 21, year = js ''SY'',
          donatedAt = 2000\<rparr>,
         \<lparr>docId = 13, fullName = js ''Cid'', bloodGroup = js ''O-'', age = 22, year = js ''TY'',
          donatedAt = 2000\<rparr>],
      Stats = []\<rparr> =
   (\<lparr>status = 200,
     body = VObj
       [(''success'', VBool True),
        (''data'', VArr
           [VObj [(''_id'', VId 13), (''fullName'', VStr (js ''Cid'')),
                  (''bloodGroup'', VStr (js ''O-'')), (''donatedAt'', VDate 2000)],
            VObj [(''_id'', VId 12), (''fullName'', VStr (js ''Bob'')),
                  (''bloodGroup'', VStr (js ''B+'')), (''donatedAt'', VDate 2000)]])]\<rparr>,
    \<lparr>Donor =
        [\<lparr>docId = 12, fullName = js ''Bob'', bloodGroup = js ''B+'', age = 21, year = js ''SY'',
          donatedAt = 2000\<rparr>,
         \<lparr>docId = 13, fullName = js ''Cid'', bloodGroup = js ''O-'', age = 22, year = js ''TY'',
          donatedAt = 2000\<rparr>],
      Stats = []\<rparr>)"
  by (simp add: string_eval route_eval enumerate_eq_zip upt_rec)

section \<open>The increment creates the singleton when it is absent\<close>

text \<open>
  Claim C9. When \<open>incrementCount\<close> runs while no Stats document with the key
  \<open>global\<close> exists, the upsert inserts it instead of failing: afterwards the store holds
  exactly one singleton, its \<open>totalBloodUnits\<close> is the increment amount and its
  \<open>lastUpdated\<close> is the time of the call. So the singleton can come into being through
  the increment, without \<open>getStats\<close>.
\<close>

theorem incrementCount_upsert:
  assumes "singletons s = []" and "up io"
  shows "incrementCount amount io s =
           Inr (\<lparr>identifier = global, totalBloodUnits = amount, lastUpdated = now io\<rparr>,
                s\<lparr>Stats := Stats s @
                  [\<lparr>identifier = global, totalBloodUnits = amount, lastUpdated = now io\<rparr>]\<rparr>) \<and>
         singletons (s\<lparr>Stats := Stats s @
              [\<lparr>identifier = global, totalBloodUnits = amount, lastUpdated = now io\<rparr>]\<rparr>) =
           [\<lparr>identifier = global, totalBloodUnits = amount, lastUpdated = now io\<rparr>] \<and>
         totalUnits (s\<lparr>Stats := Stats s @
              [\<lparr>identifier = global, totalBloodUnits = amount, lastUpdated = now io\<rparr>]\<rparr>) = amount"
proof -
  have none: "find (\<lambda>d. identifier d = global) (Stats s) = None"
    using assms(1) by (rule find_singletons_None)
  have "incrementCount amount io s =
           Inr (\<lparr>identifier = global, totalBloodUnits = amount, lastUpdated = now io\<rparr>,
                s\<lparr>Stats := Stats s @
                  [\<lparr>identifier = global, totalBloodUnits = amount, lastUpdated = now io\<rparr>]\<rparr>)"
    using assms(2) none by (simp add: incrementCount_def findOneAndUpdate_def Let_def)
  moreover have "singletons (s\<lparr>Stats := Stats s @
              [\<lparr>identifier = global, totalBloodUnits = amount, lastUpdated = now io\<rparr>]\<rparr>) =
           [\<lparr>identifier = global, totalBloodUnits = amount, lastUpdated = now io\<rparr>]"
    using assms(1) by (simp add: singletons_def)
  moreover have "totalUnits (s\<lparr>Stats := Stats s @
              [\<lparr>identifier = global, totalBloodUnits = amount, lastUpdated = now io\<rparr>]\<rparr>) = amount"
    using none by (simp add: totalUnits_def find_append_js)
  ultimately show ?thesis by blast
qed

theorem incrementCount_upsert_witness:
  "singletons \<lparr>Donor = [], Stats = []\<rparr> = [] \<and> up \<lparr>up = True, now = 1000, oid = 7, ties = []\<rparr> \<and>
   incrementCount 1 \<lparr>up = True, now = 1000, oid = 7, ties = []\<rparr> \<lparr>Donor = [], Stats = []\<rparr> =
     Inr (\<lparr>identifier = global, totalBloodUnits = 1, lastUpdated = 1000\<rparr>,
          \<lparr>Donor = [],
           Stats = [\<lparr>identifier = global, totalBloodUnits = 1, lastUpdated = 1000\<rparr>]\<rparr>)"
  using incrementCount_upsert
    [of "\<lparr>Donor = [], Stats = []\<rparr>" "\<lparr>up = True, now = 1000, oid = 7, ties = []\<rparr>" 1]
  by (simp add: singletons_def)

section \<open>Stored names are trimmed\<close>

text \<open>
  Claim C10, as amended. The schema's setter trims whatever name a document is built
  from, and the handler builds it from the trimmed submission. Whenever
  \<open>POST /api/donate\<close> saves a donor, the submitted \<open>fullName\<close> is a string, the name of
  the document in memory is that string trimmed, and the name the store holds is the
  trimmed string as the driver writes it in UTF-8, each unpaired surrogate replaced by
  U+FFFD: it equals the trimmed submission whenever that is well-formed UTF-16. The
  stored name is not empty and has no white space at either end. Hence under every
  schedule of any requests, a store whose names have no surrounding white space stays so.
\<close>

theorem stored_fullName_trimmed:
  "fullName (newDonor given bg a yr io') = trim given \<and>
   (donate_save b io s = (Inr d, s1) \<longrightarrow>
      Donor s1 = Donor s @ [toBSON d] \<and>
      (\<exists>name. submission.fullName b = JStr name \<and> fullName d = trim name \<and>
         fullName (toBSON d) = toWellFormed (trim name) \<and>
         (isWellFormed (trim name) \<longrightarrow> fullName (toBSON d) = trim name)) \<and>
      fullName (toBSON d) \<noteq> [] \<and> \<not> isWhiteSpace (hd (fullName (toBSON d))) \<and>
      \<not> isWhiteSpace (last (fullName (toBSON d)))) \<and>
   ((\<forall>x \<in> set (Donor s). noSurroundingSpace (fullName x)) \<and> run sch (ts, s) = (ts', s2) \<longrightarrow>
      (\<forall>x \<in> set (Donor s2). noSurroundingSpace (fullName x)))"
proof (intro conjI impI)
  show "fullName (newDonor given bg a yr io') = trim given"
    by (simp add: newDonor_def)
next
  assume a: "donate_save b io s = (Inr d, s1)"
  from donate_save_Inr [OF a] obtain name ageNum
    where s1: "s1 = s\<lparr>Donor := Donor s @ [toBSON d]\<rparr>"
      and name: "submission.fullName b = JStr name"
      and new: "d = newDonor (trim name) (ToString (submission.bloodGroup b)) ageNum
                 (ToString (submission.year b)) io"
      and v: "validateDonor d = []"
    by auto
  have d: "fullName d = trim name"
    by (simp add: new newDonor_def trim_trim)
  have w: "fullName (toBSON d) = toWellFormed (trim name)"
    by (simp add: toBSON_def d)
  have len: "2 \<le> length (fullName d)"
    using v by (auto simp: validateDonor_def validate_fullName_def split: if_splits)
  then have ne: "trim name \<noteq> []"
    using d by auto
  show "Donor s1 = Donor s @ [toBSON d]"
    by (simp add: s1)
  show "\<exists>name. submission.fullName b = JStr name \<and> fullName d = trim name \<and>
         fullName (toBSON d) = toWellFormed (trim name) \<and>
         (isWellFormed (trim name) \<longrightarrow> fullName (toBSON d) = trim name)"
    using name d w toWellFormed_fixed by auto
  show "fullName (toBSON d) \<noteq> []"
    using ne by (simp add: w toWellFormed_Nil_iff)
  have "noSurroundingSpace (trim name)"
    using trim_ends [of name] by (auto simp: noSurroundingSpace_def)
  then have "noSurroundingSpace (toWellFormed (trim name))"
    by (rule noSurroundingSpace_toWellFormed)
  then show "\<not> isWhiteSpace (hd (fullName (toBSON d)))"
      "\<not> isWhiteSpace (last (fullName (toBSON d)))"
    using ne by (simp_all add: w noSurroundingSpace_def toWellFormed_Nil_iff)
next
  assume a: "(\<forall>x \<in> set (Donor s). noSurroundingSpace (fullName x)) \<and> run sch (ts, s) = (ts', s2)"
  then show "\<forall>x \<in> set (Donor s2). noSurroundingSpace (fullName x)"
    using run_names by blast
qed

theorem stored_fullName_trimmed_witness:
  "fullName (newDonor (js ''  Jane Doe '') (js ''O-'') 30 (js ''SY'')
     \<lparr>up = True, now = 1000, oid = 7, ties = []\<rparr>) = js ''Jane Doe'' \<and>
   donate_save
     \<lparr>submission.fullName = JStr (js ''  Jane Doe ''), bloodGroup = JStr (js ''O-''),
      age = JNum (js ''30''), year = JStr (js ''SY'')\<rparr>
     \<lparr>up = True, now = 1000, oid = 7, ties = []\<rparr>
     \<lparr>Donor = [\<lparr>docId = 6, fullName = js ''Al Bo'', bloodGroup = js ''A+'', age = 20,
                 year = js ''FY'', donatedAt = 900\<rparr>],
      Stats = []\<rparr> =
   (Inr \<lparr>docId = 7, fullName = js ''Jane Doe'', bloodGroup = js ''O-'', age = 30,
         year = js ''SY'', donatedAt = 1000\<rparr>,
    \<lparr>Donor = [\<lparr>docId = 6, fullName = js ''Al Bo'', bloodGroup = js ''A+'', age = 20,
                year = js ''FY'', donatedAt = 900\<rparr>,
              \<lparr>docId = 7, fullName = js ''Jane Doe'', bloodGroup = js ''O-'', age = 30,
                year = js ''SY'', donatedAt = 1000\<rparr>],
     Stats = []\<rparr>) \<and>
   js ''Jane Doe'' = trim (js ''  Jane Doe '') \<and>
   isWellFormed (trim (js ''  Jane Doe '')) \<and>
   toBSON \<lparr>docId = 7, fullName = js ''Jane Doe'', bloodGroup = js ''O-'', age = 30,
         year = js ''SY'', donatedAt = 1000\<rparr> =
     \<lparr>docId = 7, fullName = js ''Jane Doe'', bloodGroup = js ''O-'', age = 30,
         year = js ''SY'', donatedAt = 1000\<rparr> \<and>
   noSurroundingSpace (js ''Al Bo'') \<and>
   run [(0, \<lparr>up = True, now = 1000, oid = 7, ties = []\<rparr>)]
     ([Start (Donate
         \<lparr>submission.fullName = JStr (js ''  Jane Doe ''), bloodGroup = JStr (js ''O-''),
          age = JNum (js ''30''), year = JStr (js ''SY'')\<rparr>)],
      \<lparr>Donor = [\<lparr>docId = 6, fullName = js ''Al Bo'', bloodGroup = js ''A+'', age = 20,
                 year = js ''FY'', donatedAt = 900\<rparr>],
       Stats = []\<rparr>) =
   ([AwaitIncrement \<lparr>docId = 7, fullName = js ''Jane Doe'', bloodGroup = js ''O-'', age = 30,
         year = js ''SY'', donatedAt = 1000\<rparr>],
    \<lparr>Donor = [\<lparr>docId = 6, fullName = js ''Al Bo'', bloodGroup = js ''A+'', age = 20,
                year = js ''FY'', donatedAt = 900\<rparr>,
              \<lparr>docId = 7, fullName = js ''Jane Doe'', bloodGroup = js ''O-'', age = 30,
                year = js ''SY'', donatedAt = 1000\<rparr>],
     Stats = []\<rparr>) \<and>
   noSurroundingSpace (js ''Jane Doe'')"
proof -
  let ?b = "\<lparr>submission.fullName = JStr (js ''  Jane Doe ''), bloodGroup = JStr (js ''O-''),
      age = JNum (js ''30''), year = JStr (js ''SY'')\<rparr>"
  let ?io = "\<lparr>up = True, now = 1000, oid = 7, ties = []\<rparr>"
  let ?old = "\<lparr>docId = 6, fullName = js ''Al Bo'', bloodGroup = js ''A+'', age = 20,
                 year = js ''FY'', donatedAt = 900\<rparr>"
  let ?d = "\<lparr>docId = 7, fullName = js ''Jane Doe'', bloodGroup = js ''O-'', age = 30,
         year = js ''SY'', donatedAt = 1000\<rparr>"
  let ?s = "\<lparr>Donor = [?old], Stats = []\<rparr>"
  let ?s1 = "\<lparr>Donor = [?old, ?d], Stats = []\<rparr>"
  have sv: "donate_save ?b ?io ?s = (Inr ?d, ?s1)"
    by (simp add: string_eval donor_eval route_eval)
  have t: "js ''Jane Doe'' = trim (js ''  Jane Doe '')"
    by (simp add: string_eval)
  have wf: "isWellFormed (trim (js ''  Jane Doe ''))"
    by (simp add: string_eval isHighSurrogate_def isLowSurrogate_def)
  have w: "toBSON ?d = ?d"
    by (simp add: toBSON_def js_def isHighSurrogate_def isLowSurrogate_def)
  have old: "\<forall>x \<in> set (Donor ?s). noSurroundingSpace (fullName x)"
    by (simp add: noSurroundingSpace_def string_eval)
  have rn: "run [(0, ?io)] ([Start (Donate ?b)], ?s) = ([AwaitIncrement ?d], ?s1)"
    by (simp add: sv)
  show ?thesis
    using sv t wf w old rn
      stored_fullName_trimmed [where given = "js ''  Jane Doe ''" and bg = "js ''O-''" and a = 30
        and yr = "js ''SY''" and io' = ?io and b = ?b and io = ?io and s = ?s and d = ?d
        and ?s1.0 = ?s1 and sch = "[(0, ?io)]" and ts = "[Start (Donate ?b)]"
        and ts' = "[AwaitIncrement ?d]" and ?s2.0 = ?s1]
    by simp
qed

text \<open>
  A name made of the lone high surrogate U+D800 and the letter \<open>a\<close>, beside valid
  fields: it is accepted, trimming leaves it as it is, and the store holds U+FFFD before
  the \<open>a\<close>.
\<close>

theorem stored_fullName_surrogate_counterexample:
  "donate_save
     \<lparr>submission.fullName = JStr [0xD800, 0x61], bloodGroup = JStr (js ''O-''),
      age = JNum (js ''30''), year = JStr (js ''SY'')\<rparr>
     \<lparr>up = True, now = 1000, oid = 7, ties = []\<rparr>
     \<lparr>Donor = [], Stats = []\<rparr> =
   (Inr \<lparr>docId = 7, fullName = [0xD800, 0x61], bloodGroup = js ''O-'', age = 30,
         year = js ''SY'', donatedAt = 1000\<rparr>,
    \<lparr>Donor = [\<lparr>docId = 7, fullName = [0xFFFD, 0x61], bloodGroup = js ''O-'', age = 30,
                year = js ''SY'', donatedAt = 1000\<rparr>],
     Stats = []\<rparr>) \<and>
   trim [0xD800, 0x61] = [0xD800, 0x61] \<and>
   [0xFFFD, 0x61] \<noteq> trim [0xD800, 0x61 :: 16 word]"
  by (simp add: string_eval donor_eval route_eval)

end
